theory Spec2Isabelle
  imports Main "HOL-Library.Sublist"
begin

section \<open>Python values\<close>

text \<open>
  A Python \<^verbatim>\<open>str\<close> is a sequence of Unicode code points and a \<^verbatim>\<open>bytes\<close> object a
  sequence of numbers below 256; both are lists of naturals here. An ASCII literal of the
  source is written \<open>asc ''...''\<close>; the Chinese literals are given by their code points.
\<close>

type_synonym pystr = "nat list"
type_synonym bytes = "nat list"

definition asc :: "string \<Rightarrow> pystr" where
  "asc s = map of_char s"

text \<open>
  The values \<^verbatim>\<open>json.loads\<close> builds, floats apart. A \<open>JObj\<close> is a \<^verbatim>\<open>dict\<close>: its items in
  insertion order, the keys distinct.
\<close>

datatype json =
    JNull
  | JBool bool
  | JInt int
  | JStr pystr
  | JArr "json list"
  | JObj "(pystr \<times> json) list"

datatype errno = ENOENT | ENOTDIR | EEXIST | EISDIR | ENAMETOOLONG

text \<open>
  Exceptions. \<open>Exception m\<close> is \<^verbatim>\<open>Exception(m)\<close> raised by the source itself, \<open>Other m\<close>
  an exception of the environment (a JSON syntax error, a network failure) whose
  \<^verbatim>\<open>str()\<close> is \<open>m\<close>. The others are raised by the library calls modelled below and carry
  the operands their text is built from; a path is given as \<^verbatim>\<open>str(path)\<close>.
\<close>

datatype exn =
    Exception pystr
  | Other pystr
  | AttributeError json
  | TypeError json
  | ValueError pystr
  | UnicodeEncodeError pystr json
  | UnicodeDecodeError pystr bytes
  | LookupError pystr
  | OSError errno pystr
  | RecursionError

text \<open>
  A text encoding, as the source uses one: \<^verbatim>\<open>str.encode\<close>; the bytes a text file holds
  after the string was written to it and the file closed (the incremental encoder, which
  a stateful codec does not flush); and the text read from a file of given bytes (the
  incremental decoder). Each is \<open>None\<close> where it raises UnicodeEncodeError or
  UnicodeDecodeError.
\<close>

record codec =
  encode :: "pystr \<Rightarrow> bytes option"
  file_encode :: "pystr \<Rightarrow> bytes option"
  file_decode :: "bytes \<Rightarrow> pystr option"

text \<open>
  What the interpreter supplies and the source does not fix: the text of a library
  exception, the \<^verbatim>\<open>repr\<close> of a list or dict, the codecs registered under names other
  than \<^verbatim>\<open>'utf-8'\<close>, the name of the locale's encoding, and how many nested calls of
  \<^verbatim>\<open>Path.mkdir\<close> the recursion limit leaves room for.
\<close>

record runtime =
  exc_text :: "exn \<Rightarrow> pystr"
  repr_container :: "json \<Rightarrow> pystr"
  codecs :: "pystr \<Rightarrow> codec option"
  locale_encoding :: pystr
  mkdir_depth :: nat

definition str_exn :: "runtime \<Rightarrow> exn \<Rightarrow> pystr" where
  \<comment> \<open>\<^verbatim>\<open>str(e)\<close>\<close>
  "str_exn rt e = (case e of Exception m \<Rightarrow> m | Other m \<Rightarrow> m | _ \<Rightarrow> exc_text rt e)"

fun str_nat :: "nat \<Rightarrow> pystr" where
  "str_nat n = (if n < 10 then [48 + n] else str_nat (n div 10) @ [48 + n mod 10])"

declare str_nat.simps [simp del]

definition str_int :: "int \<Rightarrow> pystr" where
  \<comment> \<open>\<^verbatim>\<open>str(i)\<close> of an \<^verbatim>\<open>int\<close>: decimal, with a minus sign\<close>
  "str_int i = (if i < 0 then asc ''-'' @ str_nat (nat (- i)) else str_nat (nat i))"

definition format_value :: "runtime \<Rightarrow> json \<Rightarrow> pystr" where
  \<comment> \<open>a value inside an f-string, \<^verbatim>\<open>f'{v}'\<close>\<close>
  "format_value rt v =
     (case v of
        JStr s \<Rightarrow> s
      | JInt i \<Rightarrow> str_int i
      | JBool b \<Rightarrow> (if b then asc ''True'' else asc ''False'')
      | JNull \<Rightarrow> asc ''None''
      | _ \<Rightarrow> repr_container rt v)"

fun truthy :: "json \<Rightarrow> bool" where
  \<comment> \<open>\<^verbatim>\<open>bool(v)\<close>: \<^verbatim>\<open>not v\<close> is its negation\<close>
  "truthy JNull = False"
| "truthy (JBool b) = b"
| "truthy (JInt i) = (i \<noteq> 0)"
| "truthy (JStr s) = (s \<noteq> [])"
| "truthy (JArr xs) = (xs \<noteq> [])"
| "truthy (JObj kvs) = (kvs \<noteq> [])"

definition dict_get :: "json \<Rightarrow> pystr \<Rightarrow> json \<Rightarrow> exn + json" where
  \<comment> \<open>\<^verbatim>\<open>d.get(k, dflt)\<close>; only a dict has the method\<close>
  "dict_get d k dflt =
     (case d of
        JObj kvs \<Rightarrow> Inr (case map_of kvs k of Some v \<Rightarrow> v | None \<Rightarrow> dflt)
      | _ \<Rightarrow> Inl (AttributeError d))"

subsection \<open>UTF-8\<close>

definition utf8_char :: "nat \<Rightarrow> bytes option" where
  "utf8_char c =
     (if c < 0x80 then Some [c]
      else if c < 0x800 then Some [0xC0 + c div 64, 0x80 + c mod 64]
      else if c < 0x10000 then
        (if 0xD800 \<le> c \<and> c \<le> 0xDFFF then None
         else Some [0xE0 + c div 4096, 0x80 + (c div 64) mod 64, 0x80 + c mod 64])
      else if c < 0x110000 then
        Some [0xF0 + c div 262144, 0x80 + (c div 4096) mod 64,
              0x80 + (c div 64) mod 64, 0x80 + c mod 64]
      else None)"

fun utf8_encode :: "pystr \<Rightarrow> bytes option" where
  \<comment> \<open>\<^verbatim>\<open>s.encode('utf-8')\<close>; \<open>None\<close> is UnicodeEncodeError (a surrogate)\<close>
  "utf8_encode [] = Some []"
| "utf8_encode (c # cs) =
     (case utf8_char c of
        None \<Rightarrow> None
      | Some bs \<Rightarrow> (case utf8_encode cs of None \<Rightarrow> None | Some rest \<Rightarrow> Some (bs @ rest)))"

fun utf8_decode_from :: "(nat \<times> nat \<times> nat) option \<Rightarrow> bytes \<Rightarrow> pystr option" where
  \<comment> \<open>the state is \<open>None\<close> between characters, or the number of continuation bytes to
      come, the bits read so far and the least code point the sequence may encode\<close>
  "utf8_decode_from st [] = (case st of None \<Rightarrow> Some [] | Some s \<Rightarrow> None)"
| "utf8_decode_from None (b # bs) =
     (if b < 0x80 then map_option ((#) b) (utf8_decode_from None bs)
      else if 0xC2 \<le> b \<and> b \<le> 0xDF then utf8_decode_from (Some (1, b - 0xC0, 0x80)) bs
      else if 0xE0 \<le> b \<and> b \<le> 0xEF then utf8_decode_from (Some (2, b - 0xE0, 0x800)) bs
      else if 0xF0 \<le> b \<and> b \<le> 0xF4 then utf8_decode_from (Some (3, b - 0xF0, 0x10000)) bs
      else None)"
| "utf8_decode_from (Some (k, acc, lo)) (b # bs) =
     (if 0x80 \<le> b \<and> b \<le> 0xBF then
        (let c = acc * 64 + (b - 0x80) in
         if 1 < k then utf8_decode_from (Some (k - 1, c, lo)) bs
         else if lo \<le> c \<and> c < 0x110000 \<and> \<not> (0xD800 \<le> c \<and> c \<le> 0xDFFF)
           then map_option ((#) c) (utf8_decode_from None bs)
         else None)
      else None)"

definition utf8_decode :: "bytes \<Rightarrow> pystr option" where
  \<comment> \<open>\<^verbatim>\<open>bs.decode('utf-8')\<close>; \<open>None\<close> is UnicodeDecodeError\<close>
  "utf8_decode bs = utf8_decode_from None bs"

definition utf8_codec :: codec where
  \<comment> \<open>UTF-8 has no state: a file holds what \<^verbatim>\<open>encode\<close> gives\<close>
  "utf8_codec = \<lparr>encode = utf8_encode, file_encode = utf8_encode, file_decode = utf8_decode\<rparr>"

subsection \<open>Printing\<close>

text \<open>
  The standard output is a strict UTF-8 stream. \<^verbatim>\<open>print(json.dumps(v, ensure_ascii=False))\<close>
  writes the strings of \<open>v\<close> as they are, so it raises UnicodeEncodeError, and writes
  nothing, when one of them holds a code point UTF-8 does not encode: a lone surrogate.
\<close>

definition printable :: "pystr \<Rightarrow> bool" where
  "printable s \<longleftrightarrow> utf8_encode s \<noteq> None"

fun printable_json :: "json \<Rightarrow> bool" where
  "printable_json (JStr s) = printable s"
| "printable_json (JArr xs) = (\<forall>x \<in> set xs. printable_json x)"
| "printable_json (JObj kvs) = (\<forall>kv \<in> set kvs. printable (fst kv) \<and> printable_json (snd kv))"
| "printable_json v = True"

definition py_print :: "json \<Rightarrow> exn option" where
  \<comment> \<open>the exception the print of a dict raises, if any\<close>
  "py_print v = (if printable_json v then None else Some (UnicodeEncodeError (asc ''utf-8'') v))"

subsection \<open>URL quoting\<close>

definition hex_digit :: "nat \<Rightarrow> nat" where
  "hex_digit d = (if d < 10 then 48 + d else 55 + d)"

definition always_safe :: "nat \<Rightarrow> bool" where
  \<comment> \<open>letters, digits and \<^verbatim>\<open>_.-~\<close>, and the default \<^verbatim>\<open>safe='/'\<close>\<close>
  "always_safe b \<longleftrightarrow>
     (65 \<le> b \<and> b \<le> 90) \<or> (97 \<le> b \<and> b \<le> 122) \<or> (48 \<le> b \<and> b \<le> 57)
     \<or> b \<in> set (asc ''_.-~/'')"

definition quote_byte :: "nat \<Rightarrow> pystr" where
  "quote_byte b = (if always_safe b then [b] else [37, hex_digit (b div 16), hex_digit (b mod 16)])"

definition quote :: "json \<Rightarrow> exn + pystr" where
  \<comment> \<open>\<^verbatim>\<open>urllib.parse.quote(v)\<close>\<close>
  "quote v =
     (case v of
        JStr s \<Rightarrow>
          (case utf8_encode s of
             None \<Rightarrow> Inl (UnicodeEncodeError (asc ''utf-8'') v)
           | Some bs \<Rightarrow> Inr (concat (map quote_byte bs)))
      | _ \<Rightarrow> Inl (TypeError v))"

section \<open>The search skill\<close>

text \<open>
  The environment of one run: the variable \<^verbatim>\<open>BAIZE_PARAMS\<close> (absent, or the outcome of
  \<^verbatim>\<open>json.loads\<close> on it), the variable \<^verbatim>\<open>BRAVE_API_KEY\<close>, and the network. A request
  is answered by a 2xx response, whose body is given as the outcome of decoding it and
  parsing the JSON, by \<^verbatim>\<open>HTTPError\<close> with the status code and the outcome of reading
  the error body, or by any other exception.
\<close>

record request =
  url :: pystr
  headers :: "(pystr \<times> pystr) list"

datatype http_outcome =
    Response "exn + json"
  | HTTPError int "exn + bytes"
  | Failure exn

record invocation =
  BAIZE_PARAMS :: "(exn + json) option"

record search_env = invocation +
  BRAVE_API_KEY :: "pystr option"
  urlopen :: "request \<Rightarrow> http_outcome"

text \<open>
  What a run does: the dicts it has printed (each through \<^verbatim>\<open>json.dumps\<close>, one line
  each), the exit status of the process, and the requests it sent.
\<close>

record process_result =
  stdout :: "json list"
  exit_code :: nat

record search_run = process_result +
  requests :: "request list"

definition BRAVE_API_URL :: pystr where
  "BRAVE_API_URL = asc ''https://api.search.brave.com/res/v1/web/search''"

definition msg_need_query :: pystr where
  \<comment> \<open>Python literal \<^verbatim>\<open>'\u8bf7\u63d0\u4f9b\u641c\u7d22\u5173\u952e\u8bcd (query)'\<close>\<close>
  "msg_need_query = [0x8BF7, 0x63D0, 0x4F9B, 0x641C, 0x7D22, 0x5173, 0x952E, 0x8BCD] @ asc '' (query)''"

definition msg_need_key :: pystr where
  \<comment> \<open>Python literal \<^verbatim>\<open>'\u672a\u8bbe\u7f6e BRAVE_API_KEY \u73af\u5883\u53d8\u91cf\uff0c\u8bf7\u5728 .env \u6587\u4ef6\u4e2d\u6dfb\u52a0: BRAVE_API_KEY=your_key'\<close>\<close>
  "msg_need_key = [0x672A, 0x8BBE, 0x7F6E] @ asc '' BRAVE_API_KEY '' @ [0x73AF, 0x5883, 0x53D8, 0x91CF, 0xFF0C, 0x8BF7, 0x5728] @ asc '' .env '' @ [0x6587, 0x4EF6, 0x4E2D, 0x6DFB, 0x52A0] @ asc '': BRAVE_API_KEY=your_key''"

definition msg_found :: pystr where
  \<comment> \<open>Python literal \<^verbatim>\<open>'\u627e\u5230 '\<close>\<close>
  "msg_found = [0x627E, 0x5230] @ asc '' ''"

definition msg_results :: pystr where
  \<comment> \<open>Python literal \<^verbatim>\<open>' \u4e2a\u7ed3\u679c'\<close>\<close>
  "msg_results = asc '' '' @ [0x4E2A, 0x7ED3, 0x679C]"

definition msg_api_error :: pystr where
  \<comment> \<open>Python literal \<^verbatim>\<open>'API\u8fd4\u56de\u9519\u8bef: '\<close>\<close>
  "msg_api_error = asc ''API'' @ [0x8FD4, 0x56DE, 0x9519, 0x8BEF] @ asc '': ''"

definition result_record :: "json \<Rightarrow> exn + json" where
  \<comment> \<open>the body of the loop of \<^verbatim>\<open>parse_results\<close>\<close>
  "result_record item =
     (case dict_get item (asc ''title'') (JStr []) of
        Inl e \<Rightarrow> Inl e
      | Inr t \<Rightarrow>
     (case dict_get item (asc ''url'') (JStr []) of
        Inl e \<Rightarrow> Inl e
      | Inr u \<Rightarrow>
     (case dict_get item (asc ''description'') (JStr []) of
        Inl e \<Rightarrow> Inl e
      | Inr d \<Rightarrow>
          Inr (JObj [(asc ''title'', t), (asc ''url'', u), (asc ''description'', d)]))))"

fun append_results :: "json list \<Rightarrow> json list \<Rightarrow> exn + json list" where
  \<comment> \<open>\<^verbatim>\<open>for item in web_results: results.append(...)\<close>\<close>
  "append_results results [] = Inr results"
| "append_results results (item # items) =
     (case result_record item of
        Inl e \<Rightarrow> Inl e
      | Inr r \<Rightarrow> append_results (results @ [r]) items)"

definition iterate :: "json \<Rightarrow> exn + json list" where
  \<comment> \<open>the items a \<^verbatim>\<open>for\<close> loop draws from a value: the elements of a list, the keys of
      a dict, the characters of a string\<close>
  "iterate v =
     (case v of
        JArr xs \<Rightarrow> Inr xs
      | JObj kvs \<Rightarrow> Inr (map (\<lambda>k. JStr k) (map fst kvs))
      | JStr s \<Rightarrow> Inr (map (\<lambda>c. JStr [c]) s)
      | _ \<Rightarrow> Inl (TypeError v))"

definition parse_results :: "json \<Rightarrow> exn + json list" where
  "parse_results json_data =
     (case dict_get json_data (asc ''web'') (JObj []) of
        Inl e \<Rightarrow> Inl e
      | Inr web \<Rightarrow>
     (case dict_get web (asc ''results'') (JArr []) of
        Inl e \<Rightarrow> Inl e
      | Inr web_results \<Rightarrow>
     (case iterate web_results of
        Inl e \<Rightarrow> Inl e
      | Inr items \<Rightarrow> append_results [] items)))"

definition build_request :: "pystr \<Rightarrow> pystr \<Rightarrow> request" where
  "build_request u api_key =
     \<lparr>url = u,
      headers = [(asc ''Accept'', asc ''application/json''),
                 (asc ''Accept-Encoding'', asc ''gzip''),
                 (asc ''X-Subscription-Token'', api_key)]\<rparr>"

definition search_url :: "runtime \<Rightarrow> json \<Rightarrow> json \<Rightarrow> json \<Rightarrow> exn + pystr" where
  "search_url rt query count offset =
     (case quote query of
        Inl e \<Rightarrow> Inl e
      | Inr q \<Rightarrow>
          Inr (BRAVE_API_URL @ asc ''?q='' @ q @ asc ''&count='' @ format_value rt count
               @ asc ''&offset='' @ format_value rt offset))"

definition search_brave ::
  "runtime \<Rightarrow> search_env \<Rightarrow> json \<Rightarrow> pystr \<Rightarrow> json \<Rightarrow> json \<Rightarrow> request list \<times> (exn + json list)"
where
  \<comment> \<open>returns the requests sent beside the result or the exception raised\<close>
  "search_brave rt env query api_key count offset =
     (case search_url rt query count offset of
        Inl e \<Rightarrow> ([], Inl e)
      | Inr u \<Rightarrow>
          (let req = build_request u api_key in
           (case urlopen env req of
              Response body \<Rightarrow>
                (case body of
                   Inl e \<Rightarrow> ([req], Inl e)
                 | Inr data \<Rightarrow> ([req], parse_results data))
            | HTTPError code body \<Rightarrow>
                (case body of
                   Inl e \<Rightarrow> ([req], Inl e)
                 | Inr raw \<Rightarrow>
                     (case utf8_decode raw of
                        None \<Rightarrow> ([req], Inl (UnicodeDecodeError (asc ''utf-8'') raw))
                      | Some error_body \<Rightarrow>
                          ([req], Inl (Exception (msg_api_error @ str_int code @ asc '' - ''
                                                  @ error_body)))))
            | Failure e \<Rightarrow> ([req], Inl e))))"

definition error_envelope :: "pystr \<Rightarrow> json" where
  "error_envelope error = JObj [(asc ''success'', JBool False), (asc ''error'', JStr error)]"

definition success_envelope :: "json list \<Rightarrow> pystr \<Rightarrow> json" where
  "success_envelope data message =
     JObj [(asc ''success'', JBool True),
           (asc ''data'', JObj [(asc ''results'', JArr data)]),
           (asc ''message'', JStr message)]"

definition search_failed :: "runtime \<Rightarrow> request list \<Rightarrow> exn \<Rightarrow> search_run" where
  \<comment> \<open>the handler of \<^verbatim>\<open>main\<close>: \<^verbatim>\<open>output_error(str(e)); sys.exit(1)\<close>. When the print
      raises inside the handler nothing catches it: the process ends with status 1 and
      has printed nothing\<close>
  "search_failed rt reqs e =
     (case py_print (error_envelope (str_exn rt e)) of
        None \<Rightarrow> \<lparr>stdout = [error_envelope (str_exn rt e)], exit_code = 1, requests = reqs\<rparr>
      | Some e' \<Rightarrow> \<lparr>stdout = [], exit_code = 1, requests = reqs\<rparr>)"

definition search_output :: "runtime \<Rightarrow> request list \<Rightarrow> json \<Rightarrow> search_run" where
  \<comment> \<open>\<^verbatim>\<open>output_error\<close> and \<^verbatim>\<open>output_success\<close> called in the body of \<^verbatim>\<open>main\<close>, which
      then returns: the print is inside \<^verbatim>\<open>try\<close>\<close>
  "search_output rt reqs v =
     (case py_print v of
        None \<Rightarrow> \<lparr>stdout = [v], exit_code = 0, requests = reqs\<rparr>
      | Some e \<Rightarrow> search_failed rt reqs e)"

definition search_main :: "runtime \<Rightarrow> search_env \<Rightarrow> search_run" where
  \<comment> \<open>\<^verbatim>\<open>main\<close> of the search skill, run as a process\<close>
  "search_main rt env =
     (case (case BAIZE_PARAMS env of
              None \<Rightarrow> Inr (JObj [(asc ''params'', JObj [])])
            | Some loaded \<Rightarrow> loaded) of
        Inl e \<Rightarrow> search_failed rt [] e
      | Inr input_data \<Rightarrow>
     (case dict_get input_data (asc ''params'') (JObj []) of
        Inl e \<Rightarrow> search_failed rt [] e
      | Inr params \<Rightarrow>
     (case dict_get params (asc ''query'') JNull of
        Inl e \<Rightarrow> search_failed rt [] e
      | Inr query \<Rightarrow>
     (case dict_get params (asc ''count'') (JInt 5) of
        Inl e \<Rightarrow> search_failed rt [] e
      | Inr count \<Rightarrow>
     (case dict_get params (asc ''offset'') (JInt 0) of
        Inl e \<Rightarrow> search_failed rt [] e
      | Inr offset \<Rightarrow>
          if \<not> truthy query then search_output rt [] (error_envelope msg_need_query)
          else
            (case BRAVE_API_KEY env of
               None \<Rightarrow> search_output rt [] (error_envelope msg_need_key)
             | Some api_key \<Rightarrow>
                 if api_key = [] then search_output rt [] (error_envelope msg_need_key)
                 else
                   (case search_brave rt env query api_key count offset of
                      (reqs, Inl e) \<Rightarrow> search_failed rt reqs e
                    | (reqs, Inr results) \<Rightarrow>
                        search_output rt reqs
                          (success_envelope results
                             (msg_found @ str_int (int (length results)) @ msg_results)))))))))"

section \<open>The file system and the library calls on it\<close>

text \<open>
  A file system as Linux presents it, without symbolic links and access rights: a node is
  found at its location, the list of names that lead to it from the root. A name has at
  most \<open>NAME_MAX\<close> bytes and a path passed to a system call fewer than \<open>PATH_MAX\<close>. The
  library is that of CPython 3.11: \<^verbatim>\<open>Path.exists\<close> and \<^verbatim>\<open>Path.is_dir\<close> answer false
  when the lookup fails because a name is missing, a file stands where a directory is
  needed or the path cannot be passed to the system, and raise every other error.
  Writing is modelled as on POSIX, where text mode leaves line ends as they are.
\<close>

type_synonym loc = "pystr list"

datatype node = File bytes | Dir

type_synonym filesys = "loc \<Rightarrow> node option"

text \<open>
  A \<^verbatim>\<open>pathlib.Path\<close> on a POSIX system: the slashes it starts with (none, one, or the two
  that POSIX sets apart), and its parts.
\<close>

datatype pure_path = PurePath (slashes: nat) (parts: "pystr list")

fun split_on :: "nat \<Rightarrow> pystr \<Rightarrow> pystr list" where
  "split_on d [] = [[]]"
| "split_on d (c # cs) =
     (if c = d then [] # split_on d cs
      else (case split_on d cs of [] \<Rightarrow> [[c]] | p # ps \<Rightarrow> (c # p) # ps))"

definition leading_slashes :: "pystr \<Rightarrow> nat" where
  "leading_slashes s = length (takeWhile (\<lambda>c. c = 47) s)"

definition str_path :: "pystr \<Rightarrow> pure_path" where
  \<comment> \<open>the path a string denotes: the parts between slashes, empty parts and \<^verbatim>\<open>.\<close>
      dropped, \<^verbatim>\<open>..\<close> kept; three or more leading slashes count as one\<close>
  "str_path s =
     PurePath (if leading_slashes s = 2 then 2 else min (leading_slashes s) 1)
              (filter (\<lambda>p. p \<noteq> [] \<and> p \<noteq> asc ''.'') (split_on 47 s))"

definition Path :: "json \<Rightarrow> exn + pure_path" where
  \<comment> \<open>\<^verbatim>\<open>Path(v)\<close>, which takes a string\<close>
  "Path v = (case v of JStr s \<Rightarrow> Inr (str_path s) | _ \<Rightarrow> Inl (TypeError v))"

definition parent :: "pure_path \<Rightarrow> pure_path" where
  "parent p = PurePath (slashes p) (butlast (parts p))"

fun join_slash :: "pystr list \<Rightarrow> pystr" where
  "join_slash [] = []"
| "join_slash [x] = x"
| "join_slash (x # y # ys) = x @ [47] @ join_slash (y # ys)"

definition path_str :: "pure_path \<Rightarrow> pystr" where
  \<comment> \<open>\<^verbatim>\<open>str(path)\<close>, which is what the system calls are given\<close>
  "path_str p =
     (if parts p = [] \<and> slashes p = 0 then asc ''.''
      else replicate (slashes p) 47 @ join_slash (parts p))"

definition char_bytes :: "nat \<Rightarrow> nat" where
  \<comment> \<open>the bytes of a character in the file system encoding, UTF-8 with surrogate escapes\<close>
  "char_bytes c =
     (if c < 0x80 then 1 else if c < 0x800 then 2
      else if 0xDC80 \<le> c \<and> c \<le> 0xDCFF then 1
      else if c < 0x10000 then 3 else 4)"

definition fs_length :: "pystr \<Rightarrow> nat" where
  "fs_length s = sum_list (map char_bytes s)"

definition NAME_MAX :: nat where
  "NAME_MAX = 255"

definition PATH_MAX :: nat where
  "PATH_MAX = 4096"

definition fs_encodable :: "pystr \<Rightarrow> bool" where
  \<comment> \<open>a name the operating system takes: no NUL, and UTF-8 with surrogate escapes\<close>
  "fs_encodable s \<longleftrightarrow>
     list_all (\<lambda>c. c \<noteq> 0 \<and> (utf8_char c \<noteq> None \<or> (0xDC80 \<le> c \<and> c \<le> 0xDCFF))) s"

definition os_path_ok :: "pure_path \<Rightarrow> bool" where
  "os_path_ok p \<longleftrightarrow> list_all fs_encodable (parts p)"

definition os_arg :: "pure_path \<Rightarrow> exn option" where
  \<comment> \<open>what passing the path to a system call raises before any name is looked up:
      ValueError from the conversion, or the error of a path of \<open>PATH_MAX\<close> bytes or more\<close>
  "os_arg p =
     (if \<not> os_path_ok p then Some (ValueError (path_str p))
      else if PATH_MAX \<le> fs_length (path_str p) then Some (OSError ENAMETOOLONG (path_str p))
      else None)"

definition start :: "loc \<Rightarrow> pure_path \<Rightarrow> loc" where
  "start cwd p = (if 0 < slashes p then [] else cwd)"

fun walk :: "filesys \<Rightarrow> loc \<Rightarrow> pystr list \<Rightarrow> errno + loc" where
  \<comment> \<open>path resolution: each part is looked up in a directory\<close>
  "walk fs cur [] = Inr cur"
| "walk fs cur (c # cs) =
     (case fs cur of
        None \<Rightarrow> Inl ENOENT
      | Some (File bs) \<Rightarrow> Inl ENOTDIR
      | Some Dir \<Rightarrow>
          if NAME_MAX < fs_length c then Inl ENAMETOOLONG
          else walk fs (if c = asc ''..'' then butlast cur else cur @ [c]) cs)"

definition os_stat :: "filesys \<Rightarrow> loc \<Rightarrow> pure_path \<Rightarrow> exn + node" where
  "os_stat fs cwd p =
     (case os_arg p of
        Some e \<Rightarrow> Inl e
      | None \<Rightarrow>
          (case walk fs (start cwd p) (parts p) of
             Inl e \<Rightarrow> Inl (OSError e (path_str p))
           | Inr l \<Rightarrow>
               (case fs l of None \<Rightarrow> Inl (OSError ENOENT (path_str p)) | Some n \<Rightarrow> Inr n)))"

definition lookup_answer :: "exn + node \<Rightarrow> (node \<Rightarrow> bool) \<Rightarrow> exn + bool" where
  \<comment> \<open>how \<^verbatim>\<open>exists()\<close> and \<^verbatim>\<open>is_dir()\<close> answer from the outcome of \<^verbatim>\<open>stat()\<close>\<close>
  "lookup_answer r test =
     (case r of
        Inr n \<Rightarrow> Inr (test n)
      | Inl (OSError e s) \<Rightarrow>
          if e = ENOENT \<or> e = ENOTDIR then Inr False else Inl (OSError e s)
      | Inl (ValueError s) \<Rightarrow> Inr False
      | Inl e \<Rightarrow> Inl e)"

definition path_exists :: "filesys \<Rightarrow> loc \<Rightarrow> pure_path \<Rightarrow> exn + bool" where
  \<comment> \<open>\<^verbatim>\<open>path.exists()\<close>\<close>
  "path_exists fs cwd p = lookup_answer (os_stat fs cwd p) (\<lambda>n. True)"

definition is_dir :: "filesys \<Rightarrow> loc \<Rightarrow> pure_path \<Rightarrow> exn + bool" where
  \<comment> \<open>\<^verbatim>\<open>path.is_dir()\<close>\<close>
  "is_dir fs cwd p = lookup_answer (os_stat fs cwd p) (\<lambda>n. n = Dir)"

definition st_size :: "node \<Rightarrow> nat" where
  \<comment> \<open>the size of a file; that of a directory is never read\<close>
  "st_size n = (case n of File bs \<Rightarrow> length bs | Dir \<Rightarrow> 0)"

definition resolve_entry :: "filesys \<Rightarrow> loc \<Rightarrow> pure_path \<Rightarrow> errno \<Rightarrow> exn + loc" where
  \<comment> \<open>the location of the directory entry a path names, for the calls that create or
      remove one; \<open>e_dir\<close> is their error on \<^verbatim>\<open>.\<close>, \<^verbatim>\<open>/\<close> and a path ending in \<^verbatim>\<open>..\<close>\<close>
  "resolve_entry fs cwd p e_dir =
     (case os_arg p of
        Some e \<Rightarrow> Inl e
      | None \<Rightarrow>
          if parts p = [] then Inl (OSError e_dir (path_str p))
          else (case walk fs (start cwd p) (butlast (parts p)) of
                  Inl e \<Rightarrow> Inl (OSError e (path_str p))
                | Inr d \<Rightarrow>
                    (case fs d of
                       None \<Rightarrow> Inl (OSError ENOENT (path_str p))
                     | Some (File bs) \<Rightarrow> Inl (OSError ENOTDIR (path_str p))
                     | Some Dir \<Rightarrow>
                         if NAME_MAX < fs_length (last (parts p))
                           then Inl (OSError ENAMETOOLONG (path_str p))
                         else if last (parts p) = asc ''..''
                           then Inl (OSError e_dir (path_str p))
                         else Inr (d @ [last (parts p)]))))"

definition os_mkdir :: "filesys \<Rightarrow> loc \<Rightarrow> pure_path \<Rightarrow> exn + filesys" where
  "os_mkdir fs cwd p =
     (case resolve_entry fs cwd p EEXIST of
        Inl e \<Rightarrow> Inl e
      | Inr l \<Rightarrow>
          (case fs l of
             Some n \<Rightarrow> Inl (OSError EEXIST (path_str p))
           | None \<Rightarrow> Inr (fs(l \<mapsto> Dir))))"

definition is_not_found :: "exn \<Rightarrow> bool" where
  \<comment> \<open>\<^verbatim>\<open>except FileNotFoundError\<close>\<close>
  "is_not_found e = (case e of OSError n s \<Rightarrow> n = ENOENT | _ \<Rightarrow> False)"

definition is_os_error :: "exn \<Rightarrow> bool" where
  \<comment> \<open>\<^verbatim>\<open>except OSError\<close>\<close>
  "is_os_error e = (case e of OSError n s \<Rightarrow> True | _ \<Rightarrow> False)"

definition exists_ok :: "filesys \<Rightarrow> loc \<Rightarrow> pure_path \<Rightarrow> exn \<Rightarrow> exn option" where
  \<comment> \<open>the clause \<^verbatim>\<open>except OSError: if not exist_ok or not self.is_dir(): raise\<close> of
      \<^verbatim>\<open>Path.mkdir\<close>, with \<^verbatim>\<open>exist_ok=True\<close>: the exception that leaves it, if any\<close>
  "exists_ok fs cwd p e =
     (case is_dir fs cwd p of
        Inl e' \<Rightarrow> Some e'
      | Inr d \<Rightarrow> if d then None else Some e)"

definition mkdir_here :: "filesys \<Rightarrow> loc \<Rightarrow> pure_path \<Rightarrow> filesys \<times> exn option" where
  \<comment> \<open>\<^verbatim>\<open>path.mkdir(parents=False, exist_ok=True)\<close>: the file system it leaves and the
      exception it raises, if any\<close>
  "mkdir_here fs cwd p =
     (case os_mkdir fs cwd p of
        Inr fs' \<Rightarrow> (fs', None)
      | Inl e \<Rightarrow>
          if is_not_found e then (fs, Some e)
          else if is_os_error e then (fs, exists_ok fs cwd p e)
          else (fs, Some e))"

function mkdir_parents :: "nat \<Rightarrow> filesys \<Rightarrow> loc \<Rightarrow> pure_path \<Rightarrow> filesys \<times> exn option" where
  \<comment> \<open>\<^verbatim>\<open>path.mkdir(parents=True, exist_ok=True)\<close>, which calls itself on the parent;
      \<open>depth\<close> is the number of nested calls the recursion limit still allows. The
      directories made before a failure stay\<close>
  "mkdir_parents depth fs cwd p =
     (if depth = 0 then (fs, Some RecursionError)
      else
        (case os_mkdir fs cwd p of
           Inr fs' \<Rightarrow> (fs', None)
         | Inl e \<Rightarrow>
             if is_not_found e then
               (if parts p = [] then (fs, Some e)
                else (case mkdir_parents (depth - 1) fs cwd (parent p) of
                        (fs1, Some e') \<Rightarrow> (fs1, Some e')
                      | (fs1, None) \<Rightarrow> mkdir_here fs1 cwd p))
             else if is_os_error e then (fs, exists_ok fs cwd p e)
             else (fs, Some e)))"
  by pat_completeness auto
termination
  by (relation "measure (\<lambda>(depth, fs, cwd, p). depth)") auto

declare mkdir_parents.simps [simp del]

subsection \<open>Text files\<close>

definition lookup_codec :: "runtime \<Rightarrow> pystr \<Rightarrow> codec option" where
  "lookup_codec rt name = (if name = asc ''utf-8'' then Some utf8_codec else codecs rt name)"

definition encoding_name :: "pystr \<Rightarrow> exn option" where
  \<comment> \<open>what the name of an encoding raises when it is passed to the interpreter as a C
      string: it is encoded as UTF-8 and holds no NUL\<close>
  "encoding_name name =
     (if \<not> printable name then Some (UnicodeEncodeError (asc ''utf-8'') (JStr name))
      else if 0 \<in> set name then Some (ValueError name)
      else None)"

definition text_encoding :: "runtime \<Rightarrow> json \<Rightarrow> exn + pystr" where
  \<comment> \<open>the \<^verbatim>\<open>encoding\<close> argument of \<^verbatim>\<open>open\<close>: a name, or \<^verbatim>\<open>None\<close> for the locale's\<close>
  "text_encoding rt encoding =
     (case encoding of
        JStr name \<Rightarrow> (case encoding_name name of Some e \<Rightarrow> Inl e | None \<Rightarrow> Inr name)
      | JNull \<Rightarrow> Inr (locale_encoding rt)
      | _ \<Rightarrow> Inl (TypeError encoding))"

fun translate_newlines :: "bool \<Rightarrow> pystr \<Rightarrow> pystr" where
  \<comment> \<open>universal newlines on reading: \<^verbatim>\<open>\r\n\<close> and \<^verbatim>\<open>\r\<close> become \<^verbatim>\<open>\n\<close>; the flag says
      that the character before was \<^verbatim>\<open>\r\<close>\<close>
  "translate_newlines after_cr [] = []"
| "translate_newlines after_cr (c # cs) =
     (if c = 13 then 10 # translate_newlines True cs
      else if c = 10 \<and> after_cr then translate_newlines False cs
      else c # translate_newlines False cs)"

definition read_text :: "runtime \<Rightarrow> filesys \<Rightarrow> loc \<Rightarrow> pure_path \<Rightarrow> json \<Rightarrow> exn + pystr" where
  \<comment> \<open>\<^verbatim>\<open>path.read_text(encoding=encoding)\<close>\<close>
  "read_text rt fs cwd p encoding =
     (case text_encoding rt encoding of
        Inl e \<Rightarrow> Inl e
      | Inr name \<Rightarrow>
     (case os_stat fs cwd p of
        Inl e \<Rightarrow> Inl e
      | Inr Dir \<Rightarrow> Inl (OSError EISDIR (path_str p))
      | Inr (File bs) \<Rightarrow>
     (case lookup_codec rt name of
        None \<Rightarrow> Inl (LookupError name)
      | Some cd \<Rightarrow>
     (case file_decode cd bs of
        None \<Rightarrow> Inl (UnicodeDecodeError name bs)
      | Some s \<Rightarrow> Inr (translate_newlines False s)))))"

definition write_text ::
  "runtime \<Rightarrow> filesys \<Rightarrow> loc \<Rightarrow> pure_path \<Rightarrow> json \<Rightarrow> json \<Rightarrow> filesys \<times> (exn + unit)"
where
  \<comment> \<open>\<^verbatim>\<open>path.write_text(data, encoding=encoding)\<close>: the file is created or truncated when
      it is opened, before the codec is looked up and the text encoded; it then holds
      what the incremental encoder has given when the file is closed\<close>
  "write_text rt fs cwd p data encoding =
     (case data of
        JStr s \<Rightarrow>
          (case text_encoding rt encoding of
             Inl e \<Rightarrow> (fs, Inl e)
           | Inr name \<Rightarrow>
          (case resolve_entry fs cwd p EISDIR of
             Inl e \<Rightarrow> (fs, Inl e)
           | Inr l \<Rightarrow>
          (case fs l of
             Some Dir \<Rightarrow> (fs, Inl (OSError EISDIR (path_str p)))
           | _ \<Rightarrow>
          (case lookup_codec rt name of
             None \<Rightarrow> (fs(l \<mapsto> File []), Inl (LookupError name))
           | Some cd \<Rightarrow>
          (case file_encode cd s of
             None \<Rightarrow> (fs(l \<mapsto> File []), Inl (UnicodeEncodeError name data))
           | Some bs \<Rightarrow> (fs(l \<mapsto> File bs), Inr ()))))))
      | _ \<Rightarrow> (fs, Inl (TypeError data)))"

definition str_encode :: "runtime \<Rightarrow> json \<Rightarrow> json \<Rightarrow> exn + bytes" where
  \<comment> \<open>\<^verbatim>\<open>v.encode(encoding)\<close>, which takes no \<^verbatim>\<open>None\<close> for the encoding\<close>
  "str_encode rt v encoding =
     (case v of
        JStr s \<Rightarrow>
          (case encoding of
             JStr name \<Rightarrow>
               (case encoding_name name of
                  Some e \<Rightarrow> Inl e
                | None \<Rightarrow>
                    (case lookup_codec rt name of
                       None \<Rightarrow> Inl (LookupError name)
                     | Some cd \<Rightarrow>
                         (case encode cd s of
                            None \<Rightarrow> Inl (UnicodeEncodeError name v)
                          | Some bs \<Rightarrow> Inr bs)))
           | _ \<Rightarrow> Inl (TypeError encoding))
      | _ \<Rightarrow> Inl (AttributeError v))"

definition unlink :: "filesys \<Rightarrow> loc \<Rightarrow> pure_path \<Rightarrow> exn + filesys" where
  "unlink fs cwd p =
     (case resolve_entry fs cwd p EISDIR of
        Inl e \<Rightarrow> Inl e
      | Inr l \<Rightarrow>
          (case fs l of
             None \<Rightarrow> Inl (OSError ENOENT (path_str p))
           | Some Dir \<Rightarrow> Inl (OSError EISDIR (path_str p))
           | Some (File bs) \<Rightarrow> Inr (fs(l := None))))"

section \<open>The file skill\<close>

text \<open>
  The environment of one run: the variable \<^verbatim>\<open>BAIZE_PARAMS\<close>, the standard input
  (\<open>None\<close> when it is empty, else the outcome of reading it and of \<^verbatim>\<open>json.loads\<close> on
  it), the file system and the working directory. A run leaves the file system it has
  changed.
\<close>

record file_env = invocation +
  stdin :: "(exn + json) option"
  disk :: filesys
  workdir :: loc

record file_run = process_result +
  disk_after :: filesys

definition msg_no_input :: pystr where
  \<comment> \<open>Python literal \<^verbatim>\<open>'\u6ca1\u6709\u8f93\u5165\u53c2\u6570'\<close>\<close>
  "msg_no_input = [0x6CA1, 0x6709, 0x8F93, 0x5165, 0x53C2, 0x6570]"

definition msg_need_action :: pystr where
  \<comment> \<open>Python literal \<^verbatim>\<open>'\u7f3a\u5c11 action \u53c2\u6570'\<close>\<close>
  "msg_need_action = [0x7F3A, 0x5C11] @ asc '' action '' @ [0x53C2, 0x6570]"

definition msg_need_path :: pystr where
  \<comment> \<open>Python literal \<^verbatim>\<open>'\u7f3a\u5c11 path \u53c2\u6570'\<close>\<close>
  "msg_need_path = [0x7F3A, 0x5C11] @ asc '' path '' @ [0x53C2, 0x6570]"

definition msg_unknown_action :: pystr where
  \<comment> \<open>Python literal \<^verbatim>\<open>'\u672a\u77e5\u64cd\u4f5c: '\<close>\<close>
  "msg_unknown_action = [0x672A, 0x77E5, 0x64CD, 0x4F5C] @ asc '': ''"

definition msg_not_found :: pystr where
  \<comment> \<open>Python literal \<^verbatim>\<open>'\u6587\u4ef6\u4e0d\u5b58\u5728: '\<close>\<close>
  "msg_not_found = [0x6587, 0x4EF6, 0x4E0D, 0x5B58, 0x5728] @ asc '': ''"

definition msg_read_failed :: pystr where
  \<comment> \<open>Python literal \<^verbatim>\<open>'\u8bfb\u53d6\u6587\u4ef6\u5931\u8d25: '\<close>\<close>
  "msg_read_failed = [0x8BFB, 0x53D6, 0x6587, 0x4EF6, 0x5931, 0x8D25] @ asc '': ''"

definition msg_written :: pystr where
  \<comment> \<open>Python literal \<^verbatim>\<open>'\u6587\u4ef6\u5df2\u5199\u5165: '\<close>\<close>
  "msg_written = [0x6587, 0x4EF6, 0x5DF2, 0x5199, 0x5165] @ asc '': ''"

definition msg_write_failed :: pystr where
  \<comment> \<open>Python literal \<^verbatim>\<open>'\u5199\u5165\u6587\u4ef6\u5931\u8d25: '\<close>\<close>
  "msg_write_failed = [0x5199, 0x5165, 0x6587, 0x4EF6, 0x5931, 0x8D25] @ asc '': ''"

definition msg_created :: pystr where
  \<comment> \<open>Python literal \<^verbatim>\<open>'\u6587\u4ef6\u5df2\u521b\u5efa: '\<close>\<close>
  "msg_created = [0x6587, 0x4EF6, 0x5DF2, 0x521B, 0x5EFA] @ asc '': ''"

definition msg_create_failed :: pystr where
  \<comment> \<open>Python literal \<^verbatim>\<open>'\u521b\u5efa\u6587\u4ef6\u5931\u8d25: '\<close>\<close>
  "msg_create_failed = [0x521B, 0x5EFA, 0x6587, 0x4EF6, 0x5931, 0x8D25] @ asc '': ''"

definition msg_deleted :: pystr where
  \<comment> \<open>Python literal \<^verbatim>\<open>'\u6587\u4ef6\u5df2\u5220\u9664: '\<close>\<close>
  "msg_deleted = [0x6587, 0x4EF6, 0x5DF2, 0x5220, 0x9664] @ asc '': ''"

definition msg_delete_failed :: pystr where
  \<comment> \<open>Python literal \<^verbatim>\<open>'\u5220\u9664\u6587\u4ef6\u5931\u8d25: '\<close>\<close>
  "msg_delete_failed = [0x5220, 0x9664, 0x6587, 0x4EF6, 0x5931, 0x8D25] @ asc '': ''"

definition msg_file :: pystr where
  \<comment> \<open>Python literal \<^verbatim>\<open>'\u6587\u4ef6'\<close>\<close>
  "msg_file = [0x6587, 0x4EF6]"

definition msg_present :: pystr where
  \<comment> \<open>Python literal \<^verbatim>\<open>'\u5b58\u5728'\<close>\<close>
  "msg_present = [0x5B58, 0x5728]"

definition msg_absent :: pystr where
  \<comment> \<open>Python literal \<^verbatim>\<open>'\u4e0d\u5b58\u5728'\<close>\<close>
  "msg_absent = [0x4E0D, 0x5B58, 0x5728]"

definition msg_check_failed :: pystr where
  \<comment> \<open>Python literal \<^verbatim>\<open>'\u68c0\u67e5\u6587\u4ef6\u5931\u8d25: '\<close>\<close>
  "msg_check_failed = [0x68C0, 0x67E5, 0x6587, 0x4EF6, 0x5931, 0x8D25] @ asc '': ''"

definition read_file :: "runtime \<Rightarrow> filesys \<Rightarrow> loc \<Rightarrow> json \<Rightarrow> json \<Rightarrow> json" where
  "read_file rt fs cwd file_path encoding =
     (case Path file_path of
        Inl e \<Rightarrow> error_envelope (msg_read_failed @ str_exn rt e)
      | Inr path \<Rightarrow>
     (case path_exists fs cwd path of
        Inl e \<Rightarrow> error_envelope (msg_read_failed @ str_exn rt e)
      | Inr exists \<Rightarrow>
          if \<not> exists then error_envelope (msg_not_found @ format_value rt file_path)
          else
            (case read_text rt fs cwd path encoding of
               Inl e \<Rightarrow> error_envelope (msg_read_failed @ str_exn rt e)
             | Inr content \<Rightarrow>
            (case os_stat fs cwd path of
               Inl e \<Rightarrow> error_envelope (msg_read_failed @ str_exn rt e)
             | Inr st \<Rightarrow>
                 JObj [(asc ''success'', JBool True),
                       (asc ''data'', JObj [(asc ''content'', JStr content),
                                            (asc ''path'', file_path),
                                            (asc ''size'', JInt (int (st_size st)))]),
                       (asc ''message'', JStr content)]))))"

definition write_file ::
  "runtime \<Rightarrow> filesys \<Rightarrow> loc \<Rightarrow> json \<Rightarrow> json \<Rightarrow> json \<Rightarrow> json \<times> filesys"
where
  \<comment> \<open>returns the file system it leaves beside the result\<close>
  "write_file rt fs cwd file_path content encoding =
     (case Path file_path of
        Inl e \<Rightarrow> (error_envelope (msg_write_failed @ str_exn rt e), fs)
      | Inr path \<Rightarrow>
     (case mkdir_parents (mkdir_depth rt) fs cwd (parent path) of
        (fs1, Some e) \<Rightarrow> (error_envelope (msg_write_failed @ str_exn rt e), fs1)
      | (fs1, None) \<Rightarrow>
     (case write_text rt fs1 cwd path content encoding of
        (fs2, Inl e) \<Rightarrow> (error_envelope (msg_write_failed @ str_exn rt e), fs2)
      | (fs2, Inr u) \<Rightarrow>
     (case str_encode rt content encoding of
        Inl e \<Rightarrow> (error_envelope (msg_write_failed @ str_exn rt e), fs2)
      | Inr bs \<Rightarrow>
          (JObj [(asc ''success'', JBool True),
                 (asc ''data'', JObj [(asc ''path'', file_path),
                                      (asc ''size'', JInt (int (length bs)))]),
                 (asc ''message'', JStr (msg_written @ format_value rt file_path))],
           fs2)))))"

definition create_file ::
  "runtime \<Rightarrow> filesys \<Rightarrow> loc \<Rightarrow> json \<Rightarrow> json \<Rightarrow> json \<Rightarrow> json \<times> filesys"
where
  "create_file rt fs cwd file_path content encoding =
     (case Path file_path of
        Inl e \<Rightarrow> (error_envelope (msg_create_failed @ str_exn rt e), fs)
      | Inr path \<Rightarrow>
     (case mkdir_parents (mkdir_depth rt) fs cwd (parent path) of
        (fs1, Some e) \<Rightarrow> (error_envelope (msg_create_failed @ str_exn rt e), fs1)
      | (fs1, None) \<Rightarrow>
     (case write_text rt fs1 cwd path content encoding of
        (fs2, Inl e) \<Rightarrow> (error_envelope (msg_create_failed @ str_exn rt e), fs2)
      | (fs2, Inr u) \<Rightarrow>
     (case str_encode rt content encoding of
        Inl e \<Rightarrow> (error_envelope (msg_create_failed @ str_exn rt e), fs2)
      | Inr bs \<Rightarrow>
          (JObj [(asc ''success'', JBool True),
                 (asc ''data'', JObj [(asc ''path'', file_path),
                                      (asc ''size'', JInt (int (length bs)))]),
                 (asc ''message'', JStr (msg_created @ format_value rt file_path))],
           fs2)))))"

definition delete_file :: "runtime \<Rightarrow> filesys \<Rightarrow> loc \<Rightarrow> json \<Rightarrow> json \<times> filesys" where
  "delete_file rt fs cwd file_path =
     (case Path file_path of
        Inl e \<Rightarrow> (error_envelope (msg_delete_failed @ str_exn rt e), fs)
      | Inr path \<Rightarrow>
     (case path_exists fs cwd path of
        Inl e \<Rightarrow> (error_envelope (msg_delete_failed @ str_exn rt e), fs)
      | Inr exists \<Rightarrow>
          if \<not> exists then (error_envelope (msg_not_found @ format_value rt file_path), fs)
          else
            (case unlink fs cwd path of
               Inl e \<Rightarrow> (error_envelope (msg_delete_failed @ str_exn rt e), fs)
             | Inr fs' \<Rightarrow>
                 (JObj [(asc ''success'', JBool True),
                        (asc ''message'', JStr (msg_deleted @ format_value rt file_path))],
                  fs'))))"

definition exists_file :: "runtime \<Rightarrow> filesys \<Rightarrow> loc \<Rightarrow> json \<Rightarrow> json" where
  "exists_file rt fs cwd file_path =
     (case Path file_path of
        Inl e \<Rightarrow> error_envelope (msg_check_failed @ str_exn rt e)
      | Inr path \<Rightarrow>
     (case path_exists fs cwd path of
        Inl e \<Rightarrow> error_envelope (msg_check_failed @ str_exn rt e)
      | Inr exists \<Rightarrow>
          JObj [(asc ''success'', JBool True),
                (asc ''data'', JObj [(asc ''exists'', JBool exists)]),
                (asc ''message'',
                 JStr (msg_file @ (if exists then msg_present else msg_absent) @ asc '': ''
                       @ format_value rt file_path))]))"

definition file_failed :: "runtime \<Rightarrow> filesys \<Rightarrow> exn \<Rightarrow> file_run" where
  \<comment> \<open>the handler of \<^verbatim>\<open>main\<close>, \<^verbatim>\<open>output_error(str(e))\<close>: it prints the envelope and
      calls \<^verbatim>\<open>sys.exit(1)\<close>. When the print raises there nothing catches it: the process
      ends with status 1 and has printed nothing\<close>
  "file_failed rt fs e =
     (case py_print (error_envelope (str_exn rt e)) of
        None \<Rightarrow> \<lparr>stdout = [error_envelope (str_exn rt e)], exit_code = 1, disk_after = fs\<rparr>
      | Some e' \<Rightarrow> \<lparr>stdout = [], exit_code = 1, disk_after = fs\<rparr>)"

definition output_error :: "runtime \<Rightarrow> filesys \<Rightarrow> pystr \<Rightarrow> file_run" where
  \<comment> \<open>\<^verbatim>\<open>output_error\<close> called in the body of \<^verbatim>\<open>main\<close>: the print is inside \<^verbatim>\<open>try\<close>, and
      no handler catches the exit\<close>
  "output_error rt fs message =
     (case py_print (error_envelope message) of
        None \<Rightarrow> \<lparr>stdout = [error_envelope message], exit_code = 1, disk_after = fs\<rparr>
      | Some e \<Rightarrow> file_failed rt fs e)"

definition output_result :: "runtime \<Rightarrow> filesys \<Rightarrow> json \<Rightarrow> file_run" where
  \<comment> \<open>\<^verbatim>\<open>print(json.dumps(result, ensure_ascii=False))\<close> at the end of \<^verbatim>\<open>main\<close>, inside
      \<^verbatim>\<open>try\<close> as well\<close>
  "output_result rt fs result =
     (case py_print result of
        None \<Rightarrow> \<lparr>stdout = [result], exit_code = 0, disk_after = fs\<rparr>
      | Some e \<Rightarrow> file_failed rt fs e)"

definition dispatch ::
  "runtime \<Rightarrow> filesys \<Rightarrow> loc \<Rightarrow> json \<Rightarrow> json \<Rightarrow> json \<Rightarrow> json \<Rightarrow> json \<times> filesys"
where
  \<comment> \<open>the chain of comparisons on \<^verbatim>\<open>action\<close> in \<^verbatim>\<open>main\<close>\<close>
  "dispatch rt fs cwd action file_path content encoding =
     (if action = JStr (asc ''read'') then (read_file rt fs cwd file_path encoding, fs)
      else if action = JStr (asc ''write'') then write_file rt fs cwd file_path content encoding
      else if action = JStr (asc ''create'') then create_file rt fs cwd file_path content encoding
      else if action = JStr (asc ''delete'') then delete_file rt fs cwd file_path
      else if action = JStr (asc ''exists'') then (exists_file rt fs cwd file_path, fs)
      else (error_envelope (msg_unknown_action @ format_value rt action), fs))"

definition file_main :: "runtime \<Rightarrow> file_env \<Rightarrow> file_run" where
  \<comment> \<open>\<^verbatim>\<open>main\<close> of the file skill, run as a process\<close>
  "file_main rt env =
     (case (case BAIZE_PARAMS env of Some loaded \<Rightarrow> Some loaded | None \<Rightarrow> stdin env) of
        None \<Rightarrow> output_error rt (disk env) msg_no_input
      | Some (Inl e) \<Rightarrow> file_failed rt (disk env) e
      | Some (Inr input_data) \<Rightarrow>
     (case dict_get input_data (asc ''params'') (JObj []) of
        Inl e \<Rightarrow> file_failed rt (disk env) e
      | Inr params \<Rightarrow>
     (case dict_get params (asc ''action'') JNull of
        Inl e \<Rightarrow> file_failed rt (disk env) e
      | Inr action \<Rightarrow>
     (case dict_get params (asc ''path'') JNull of
        Inl e \<Rightarrow> file_failed rt (disk env) e
      | Inr file_path \<Rightarrow>
     (case dict_get params (asc ''content'') (JStr []) of
        Inl e \<Rightarrow> file_failed rt (disk env) e
      | Inr content \<Rightarrow>
     (case dict_get params (asc ''encoding'') (JStr (asc ''utf-8'')) of
        Inl e \<Rightarrow> file_failed rt (disk env) e
      | Inr encoding \<Rightarrow>
          if \<not> truthy action then output_error rt (disk env) msg_need_action
          else if \<not> truthy file_path then output_error rt (disk env) msg_need_path
          else
            (case dispatch rt (disk env) (workdir env) action file_path content encoding of
               (result, fs') \<Rightarrow> output_result rt fs' result)))))))"

section \<open>Notions of the statements\<close>

text \<open>
  What the statements below speak of: the parameters of a well-formed invocation, the
  records of the search results as the specification words them, the fields of an
  envelope, and the locations a path leads through.
\<close>

fun params_of :: "json \<Rightarrow> (pystr \<times> json) list option" where
  \<comment> \<open>the \<^verbatim>\<open>params\<close> mapping of an invocation envelope, empty when the envelope has no
      such key; \<open>None\<close> when the value is not an envelope\<close>
  "params_of (JObj kvs) =
     (case map_of kvs (asc ''params'') of
        None \<Rightarrow> Some []
      | Some (JObj ps) \<Rightarrow> Some ps
      | Some _ \<Rightarrow> None)"
| "params_of _ = None"

definition search_params :: "search_env \<Rightarrow> (pystr \<times> json) list option" where
  \<comment> \<open>the parameters the search skill is invoked with: none when the variable is unset\<close>
  "search_params env =
     (case BAIZE_PARAMS env of
        None \<Rightarrow> Some []
      | Some (Inl e) \<Rightarrow> None
      | Some (Inr input_data) \<Rightarrow> params_of input_data)"

definition file_params :: "file_env \<Rightarrow> (pystr \<times> json) list option" where
  \<comment> \<open>the parameters the file skill is invoked with, from the variable or, when it is
      unset, from the standard input\<close>
  "file_params env =
     (case BAIZE_PARAMS env of
        Some (Inl e) \<Rightarrow> None
      | Some (Inr input_data) \<Rightarrow> params_of input_data
      | None \<Rightarrow>
          (case stdin env of
             Some (Inr input_data) \<Rightarrow> params_of input_data
           | _ \<Rightarrow> None))"

definition param_or :: "(pystr \<times> json) list \<Rightarrow> pystr \<Rightarrow> json \<Rightarrow> json" where
  "param_or ps k dflt = (case map_of ps k of None \<Rightarrow> dflt | Some v \<Rightarrow> v)"

fun is_dict :: "json \<Rightarrow> bool" where
  "is_dict (JObj kvs) = True"
| "is_dict _ = False"

fun field_or_empty :: "json \<Rightarrow> pystr \<Rightarrow> json" where
  \<comment> \<open>a field of a result, the empty string when it is missing\<close>
  "field_or_empty (JObj kvs) k = (case map_of kvs k of None \<Rightarrow> JStr [] | Some v \<Rightarrow> v)"
| "field_or_empty _ k = JStr []"

definition flat_record :: "json \<Rightarrow> json" where
  \<comment> \<open>the record \<^verbatim>\<open>{title, url, description}\<close> of one element of \<^verbatim>\<open>web.results\<close>\<close>
  "flat_record item =
     JObj [(asc ''title'', field_or_empty item (asc ''title'')),
           (asc ''url'', field_or_empty item (asc ''url'')),
           (asc ''description'', field_or_empty item (asc ''description''))]"

definition store ::
  "runtime \<Rightarrow> filesys \<Rightarrow> loc \<Rightarrow> json \<Rightarrow> json \<Rightarrow> json \<Rightarrow> (exn + nat) \<times> filesys"
where
  \<comment> \<open>the statements \<^verbatim>\<open>write_file\<close> and \<^verbatim>\<open>create_file\<close> have in common: the exception
      raised or the byte length computed, and the file system left\<close>
  "store rt fs cwd file_path content encoding =
     (case Path file_path of
        Inl e \<Rightarrow> (Inl e, fs)
      | Inr path \<Rightarrow>
     (case mkdir_parents (mkdir_depth rt) fs cwd (parent path) of
        (fs1, Some e) \<Rightarrow> (Inl e, fs1)
      | (fs1, None) \<Rightarrow>
     (case write_text rt fs1 cwd path content encoding of
        (fs2, Inl e) \<Rightarrow> (Inl e, fs2)
      | (fs2, Inr u) \<Rightarrow>
     (case str_encode rt content encoding of
        Inl e \<Rightarrow> (Inl e, fs2)
      | Inr bs \<Rightarrow> (Inr (length bs), fs2)))))"

fun field :: "json \<Rightarrow> pystr \<Rightarrow> json option" where
  \<comment> \<open>a field of an envelope\<close>
  "field (JObj kvs) k = map_of kvs k"
| "field v k = None"

fun keys :: "json \<Rightarrow> pystr list" where
  "keys (JObj kvs) = map fst kvs"
| "keys v = []"

definition succeeded :: "json \<Rightarrow> bool" where
  "succeeded r \<longleftrightarrow> field r (asc ''success'') = Some (JBool True)"

definition has_data_mapping :: "json \<Rightarrow> bool" where
  "has_data_mapping r \<longleftrightarrow> (case field r (asc ''data'') of Some (JObj d) \<Rightarrow> True | _ \<Rightarrow> False)"

definition well_formed :: "filesys \<Rightarrow> bool" where
  \<comment> \<open>a file system is a tree of directories: the root is a directory, and whatever
      holds a node is one\<close>
  "well_formed fs \<longleftrightarrow> fs [] = Some Dir \<and> (\<forall>l n. fs (l @ [n]) \<noteq> None \<longrightarrow> fs l = Some Dir)"

definition step :: "loc \<Rightarrow> pystr \<Rightarrow> loc" where
  \<comment> \<open>where a part of a path leads from a directory\<close>
  "step l c = (if c = asc ''..'' then butlast l else l @ [c])"

fun lexical :: "loc \<Rightarrow> pystr list \<Rightarrow> loc list" where
  \<comment> \<open>the locations the parts of a path lead through, the first and the last included\<close>
  "lexical cur [] = [cur]"
| "lexical cur (c # cs) = cur # lexical (step cur c) cs"

definition ancestors :: "loc \<Rightarrow> pure_path \<Rightarrow> loc list" where
  \<comment> \<open>the locations a path leads through before its last part\<close>
  "ancestors cwd p = lexical (start cwd p) (butlast (parts p))"

definition target :: "loc \<Rightarrow> pure_path \<Rightarrow> loc" where
  \<comment> \<open>the location of the entry a path names\<close>
  "target cwd p = last (ancestors cwd p) @ [last (parts p)]"

definition with_dirs :: "filesys \<Rightarrow> loc list \<Rightarrow> filesys" where
  \<comment> \<open>a file system with directories at the given locations\<close>
  "with_dirs fs ls = (\<lambda>l. if l \<in> set ls then Some Dir else fs l)"

definition is_file :: "node option \<Rightarrow> bool" where
  "is_file n = (case n of Some (File bs) \<Rightarrow> True | _ \<Rightarrow> False)"

definition node_at :: "filesys \<Rightarrow> loc \<Rightarrow> pure_path \<Rightarrow> node option" where
  \<comment> \<open>the node a path names: the one its parts lead to through directories\<close>
  "node_at fs cwd p =
     (if list_all (\<lambda>l. fs l = Some Dir) (butlast (lexical (start cwd p) (parts p)))
      then fs (last (lexical (start cwd p) (parts p))) else None)"

definition present :: "filesys \<Rightarrow> loc \<Rightarrow> pure_path \<Rightarrow> bool" where
  \<comment> \<open>the path exists: the operating system takes its names, and it names a node\<close>
  "present fs cwd p \<longleftrightarrow> os_path_ok p \<and> node_at fs cwd p \<noteq> None"

definition short :: "pystr \<Rightarrow> bool" where
  "short c \<longleftrightarrow> fs_length c \<le> NAME_MAX"

definition within_limits :: "pure_path \<Rightarrow> bool" where
  \<comment> \<open>the path is shorter than \<open>PATH_MAX\<close> bytes and none of its names longer than
      \<open>NAME_MAX\<close>\<close>
  "within_limits p \<longleftrightarrow> fs_length (path_str p) < PATH_MAX \<and> list_all short (parts p)"

section \<open>Example environments\<close>

definition plain_runtime :: runtime where
  "plain_runtime =
     \<lparr>exc_text = (\<lambda>e. asc ''error''), repr_container = (\<lambda>v. asc ''[...]''),
      codecs = (\<lambda>name. None), locale_encoding = asc ''utf-8'', mkdir_depth = 900\<rparr>"

definition forbidden :: "request \<Rightarrow> http_outcome" where
  \<comment> \<open>the status 403 with the bytes of \<^verbatim>\<open>forbidden\<close> as body\<close>
  "forbidden req = HTTPError 403 (Inr (asc ''forbidden''))"

definition one_result :: "request \<Rightarrow> http_outcome" where
  "one_result req =
     Response (Inr (JObj [(asc ''web'', JObj [(asc ''results'',
       JArr [JObj [(asc ''title'', JStr (asc ''A'')), (asc ''url'', JStr (asc ''http://a'')),
                   (asc ''description'', JStr (asc ''d''))]])])]))"

definition twelve_results :: "request \<Rightarrow> http_outcome" where
  \<comment> \<open>one full result, and eleven that have a title only\<close>
  "twelve_results req =
     Response (Inr (JObj [(asc ''web'', JObj [(asc ''results'',
       JArr (JObj [(asc ''title'', JStr (asc ''A'')), (asc ''url'', JStr (asc ''http://a'')),
                   (asc ''description'', JStr (asc ''d''))]
             # replicate 11 (JObj [(asc ''title'', JStr [0x4E2D])])))])]))"

definition surrogate_result :: "request \<Rightarrow> http_outcome" where
  \<comment> \<open>one result whose title is a lone surrogate, as \<^verbatim>\<open>json.loads\<close> reads
      \<^verbatim>\<open>"\ud800"\<close>\<close>
  "surrogate_result req =
     Response (Inr (JObj [(asc ''web'', JObj [(asc ''results'',
       JArr [JObj [(asc ''title'', JStr [0xD800]), (asc ''url'', JStr (asc ''http://a'')),
                   (asc ''description'', JStr (asc ''d''))]])])]))"

definition query_env :: "pystr \<Rightarrow> (request \<Rightarrow> http_outcome) \<Rightarrow> search_env" where
  \<comment> \<open>an invocation with the given query, an API key and the given network\<close>
  "query_env q net =
     \<lparr>BAIZE_PARAMS = Some (Inr (JObj [(asc ''params'', JObj [(asc ''query'', JStr q)])])),
      BRAVE_API_KEY = Some (asc ''key''),
      urlopen = net\<rparr>"

definition home :: loc where
  "home = [asc ''home'']"

definition bare_disk :: filesys where
  \<comment> \<open>the root and one empty directory\<close>
  "bare_disk = [[] \<mapsto> Dir, home \<mapsto> Dir]"

definition note_disk :: filesys where
  \<comment> \<open>the same with one file in the directory\<close>
  "note_disk = bare_disk(home @ [asc ''note.txt''] \<mapsto> File (asc ''hello''))"

definition invoke :: "(pystr \<times> json) list \<Rightarrow> filesys \<Rightarrow> file_env" where
  \<comment> \<open>an invocation of the file skill in that directory, with the given parameters\<close>
  "invoke ps fs =
     \<lparr>BAIZE_PARAMS = Some (Inr (JObj [(asc ''params'', JObj ps)])),
      stdin = None, disk = fs, workdir = home\<rparr>"

section \<open>Properties of the search skill\<close>

subsection \<open>Strings that can be printed\<close>

lemma utf8_char_None: "utf8_char c = None \<longleftrightarrow> \<not> (c < 0x110000 \<and> \<not> (0xD800 \<le> c \<and> c \<le> 0xDFFF))"
  by (auto simp: utf8_char_def)

lemma printable_Nil [simp]: "printable []"
  by (simp add: printable_def)

lemma printable_Cons [simp]: "printable (c # s) \<longleftrightarrow> utf8_char c \<noteq> None \<and> printable s"
  by (auto simp: printable_def split: option.splits)

lemma printable_append [simp]: "printable (s @ t) \<longleftrightarrow> printable s \<and> printable t"
  by (induction s) auto

lemma printable_small: "\<forall>c \<in> set s. c < 0xD800 \<Longrightarrow> printable s"
  by (induction s) (auto simp: utf8_char_None)

lemma printable_asc [simp]: "printable (asc s)"
proof (rule printable_small, rule ballI)
  fix c assume "c \<in> set (asc s)"
  then obtain x where "c = of_char x" by (auto simp: asc_def)
  moreover have "(of_char x :: nat) < 256"
    by (metis of_char_mod_256 mod_less_divisor zero_less_numeral)
  then have "(of_char x :: nat) < 0xD800" by (rule less_trans) simp
  ultimately show "c < 0xD800" by (simp only:)
qed

lemma str_nat_digits: "\<forall>c \<in> set (str_nat n). 48 \<le> c \<and> c \<le> 57"
proof (induction n rule: str_nat.induct)
  case (1 n)
  show ?case
  proof (cases "n < 10")
    case True
    then show ?thesis by (simp add: str_nat.simps [of n])
  next
    case False
    have "n mod 10 < 10" by simp
    then have "48 + n mod 10 \<le> 57" by linarith
    with False 1 show ?thesis by (simp add: str_nat.simps [of n])
  qed
qed

lemma printable_str_nat [simp]: "printable (str_nat n)"
  using str_nat_digits [of n] by (intro printable_small) auto

lemma printable_str_int [simp]: "printable (str_int i)"
  by (simp add: str_int_def)

lemma utf8_decode_from_valid:
  "utf8_decode_from st bs = Some s \<Longrightarrow> printable s"
proof (induction st bs arbitrary: s rule: utf8_decode_from.induct)
  case (1 st)
  then show ?case by (auto split: option.splits)
next
  case (2 b bs)
  then show ?case
    by (auto simp: utf8_char_None split: if_splits)
next
  case (3 k acc lo b bs)
  then show ?case
    by (auto simp: utf8_char_None Let_def split: if_splits)
qed

lemma utf8_decode_printable: "utf8_decode bs = Some s \<Longrightarrow> printable s"
  unfolding utf8_decode_def by (rule utf8_decode_from_valid)

lemma printable_error_envelope [simp]: "printable_json (error_envelope m) \<longleftrightarrow> printable m"
  by (auto simp: error_envelope_def)

lemma py_print_None: "printable_json v \<Longrightarrow> py_print v = None"
  by (simp add: py_print_def)

lemma printable_search_literals [simp]:
  "printable msg_need_query" "printable msg_need_key" "printable msg_found"
  "printable msg_results" "printable msg_api_error"
  by (simp_all add: msg_need_query_def msg_need_key_def msg_found_def msg_results_def
      msg_api_error_def utf8_char_None)


subsection \<open>Auxiliary facts\<close>

lemma append_results_dicts:
  "\<forall>item \<in> set items. is_dict item \<Longrightarrow>
   append_results acc items = Inr (acc @ map flat_record items)"
proof (induction items arbitrary: acc)
  case Nil
  then show ?case by simp
next
  case (Cons item items)
  then obtain kvs where "item = JObj kvs" by (cases item) auto
  then have "result_record item = Inr (flat_record item)"
    by (simp add: result_record_def dict_get_def flat_record_def split: option.splits)
  with Cons show ?case by simp
qed

lemma parse_results_well_formed:
  assumes "map_of body (asc ''web'') = Some (JObj web)"
    and "map_of web (asc ''results'') = Some (JArr items)"
    and "\<forall>item \<in> set items. is_dict item"
  shows "parse_results (JObj body) = Inr (map flat_record items)"
  using assms by (simp add: parse_results_def dict_get_def iterate_def append_results_dicts)

lemma search_main_reaches_network:
  assumes "search_params env = Some ps"
    and "map_of ps (asc ''query'') = Some query" and "truthy query"
    and "BRAVE_API_KEY env = Some api_key" and "api_key \<noteq> []"
  shows "search_main rt env =
     (case search_brave rt env query api_key (param_or ps (asc ''count'') (JInt 5))
              (param_or ps (asc ''offset'') (JInt 0)) of
        (reqs, Inl e) \<Rightarrow> search_failed rt reqs e
      | (reqs, Inr results) \<Rightarrow>
          search_output rt reqs
            (success_envelope results
               (msg_found @ str_int (int (length results)) @ msg_results)))"
proof (cases "BAIZE_PARAMS env")
  case None
  with assms show ?thesis by (simp add: search_params_def)
next
  case (Some loaded)
  with assms obtain input_data where l: "loaded = Inr input_data" and p: "params_of input_data = Some ps"
    by (cases loaded) (auto simp: search_params_def)
  from p obtain kvs where k: "input_data = JObj kvs" by (cases input_data) auto
  from p k assms(2) have "map_of kvs (asc ''params'') = Some (JObj ps)"
    by (auto split: option.splits json.splits)
  with Some l k assms show ?thesis
    by (simp add: search_main_def dict_get_def param_or_def split: option.splits)
qed

lemma search_main_no_query:
  assumes "search_params env = Some ps"
    and "map_of ps (asc ''query'') = None \<or> (\<exists>v. map_of ps (asc ''query'') = Some v \<and> \<not> truthy v)"
  shows "search_main rt env =
           \<lparr>stdout = [error_envelope msg_need_query], exit_code = 0, requests = []\<rparr>"
proof -
  have o: "search_output rt [] (error_envelope msg_need_query) =
             \<lparr>stdout = [error_envelope msg_need_query], exit_code = 0, requests = []\<rparr>"
    by (simp add: search_output_def py_print_None)
  show ?thesis
  proof (cases "BAIZE_PARAMS env")
    case None
    then show ?thesis by (simp add: search_main_def dict_get_def asc_def o [unfolded asc_def])
  next
    case (Some loaded)
    with assms obtain input_data where l: "loaded = Inr input_data" and p: "params_of input_data = Some ps"
      by (cases loaded) (auto simp: search_params_def)
    from p obtain kvs where k: "input_data = JObj kvs" by (cases input_data) auto
    show ?thesis
    proof (cases "map_of kvs (asc ''params'')")
      case None
      with Some l k show ?thesis by (simp add: search_main_def dict_get_def o)
    next
      case (Some v)
      with p k have "v = JObj ps" by (auto split: json.splits)
      with Some \<open>BAIZE_PARAMS env = Some loaded\<close> l k assms(2) show ?thesis
        by (auto simp add: search_main_def dict_get_def o)
    qed
  qed
qed

subsection \<open>HTTP errors\<close>

text \<open>
  Claim C1, as the code has it. When the invocation is well formed, carries a query, the
  API key is set, and the request is answered by \<^verbatim>\<open>HTTPError\<close> with status \<open>code\<close> and
  a body whose bytes are the UTF-8 encoding of the text \<open>error_body\<close>, the skill prints
  one failure envelope whose error string is \<^verbatim>\<open>API...: {code} - {error_body}\<close>, which
  contains the decimal status code and the body text. The exception \<^verbatim>\<open>search_brave\<close>
  raises for it is caught by the handler of \<^verbatim>\<open>main\<close>, so the process exits with status
  1 on this path as well.
\<close>

theorem search_http_error:
  assumes "search_params env = Some ps"
    and "map_of ps (asc ''query'') = Some query" and "truthy query"
    and "BRAVE_API_KEY env = Some api_key" and "api_key \<noteq> []"
    and "search_url rt query (param_or ps (asc ''count'') (JInt 5))
           (param_or ps (asc ''offset'') (JInt 0)) = Inr u"
    and "urlopen env (build_request u api_key) = HTTPError code (Inr raw)"
    and "utf8_decode raw = Some error_body"
  shows "search_main rt env =
           \<lparr>stdout = [JObj [(asc ''success'', JBool False),
                            (asc ''error'',
                             JStr (msg_api_error @ str_int code @ asc '' - '' @ error_body))]],
            exit_code = 1, requests = [build_request u api_key]\<rparr>
         \<and> sublist (str_int code) (msg_api_error @ str_int code @ asc '' - '' @ error_body)
         \<and> sublist error_body (msg_api_error @ str_int code @ asc '' - '' @ error_body)"
proof -
  let ?error = "msg_api_error @ str_int code @ asc '' - '' @ error_body"
  have "search_brave rt env query api_key (param_or ps (asc ''count'') (JInt 5))
          (param_or ps (asc ''offset'') (JInt 0))
        = ([build_request u api_key], Inl (Exception ?error))"
    using assms(6-8) by (simp add: search_brave_def)
  moreover have "printable ?error"
    using utf8_decode_printable [OF assms(8)] by simp
  ultimately have "search_main rt env =
      \<lparr>stdout = [error_envelope ?error], exit_code = 1, requests = [build_request u api_key]\<rparr>"
    using search_main_reaches_network [OF assms(1-5), of rt]
    by (simp add: search_failed_def str_exn_def py_print_None)
  then have "search_main rt env =
      \<lparr>stdout = [JObj [(asc ''success'', JBool False), (asc ''error'', JStr ?error)]],
       exit_code = 1, requests = [build_request u api_key]\<rparr>"
    by (simp add: error_envelope_def)
  moreover have "sublist (str_int code) ?error"
    by (rule sublist_appendI)
  moreover have "sublist error_body ?error"
    using sublist_appendI [of error_body "msg_api_error @ str_int code @ asc '' - ''" "[]"]
    by simp
  ultimately show ?thesis by blast
qed

theorem search_http_error_witness:
  "search_main plain_runtime (query_env (asc ''x y'') forbidden) =
     \<lparr>stdout = [JObj [(asc ''success'', JBool False),
                      (asc ''error'', JStr (msg_api_error @ asc ''403 - forbidden''))]],
      exit_code = 1,
      requests = [build_request (BRAVE_API_URL @ asc ''?q=x%20y&count=5&offset=0'') (asc ''key'')]\<rparr>
   \<and> sublist (asc ''403'') (msg_api_error @ asc ''403 - forbidden'')
   \<and> sublist (asc ''forbidden'') (msg_api_error @ asc ''403 - forbidden'')"
proof -
  let ?env = "query_env (asc ''x y'') forbidden"
  let ?u = "BRAVE_API_URL @ asc ''?q=x%20y&count=5&offset=0''"
  have 1: "search_params ?env = Some [(asc ''query'', JStr (asc ''x y''))]"
    by (simp add: search_params_def query_env_def)
  have 2: "map_of [(asc ''query'', JStr (asc ''x y''))] (asc ''query'') = Some (JStr (asc ''x y''))"
    by simp
  have 3: "truthy (JStr (asc ''x y''))" by (simp add: asc_def)
  have 4: "BRAVE_API_KEY ?env = Some (asc ''key'')" by (simp add: query_env_def)
  have 5: "asc ''key'' \<noteq> []" by (simp add: asc_def)
  have 6: "search_url plain_runtime (JStr (asc ''x y''))
             (param_or [(asc ''query'', JStr (asc ''x y''))] (asc ''count'') (JInt 5))
             (param_or [(asc ''query'', JStr (asc ''x y''))] (asc ''offset'') (JInt 0)) = Inr ?u"
    by (simp add: search_url_def quote_def param_or_def asc_def utf8_char_def quote_byte_def
        always_safe_def hex_digit_def format_value_def str_int_def str_nat.simps)
  have 7: "urlopen ?env (build_request ?u (asc ''key'')) = HTTPError 403 (Inr (asc ''forbidden''))"
    by (simp add: query_env_def forbidden_def)
  have 8: "utf8_decode (asc ''forbidden'') = Some (asc ''forbidden'')"
    by (simp add: utf8_decode_def asc_def)
  have s: "str_int 403 = asc ''403''" by (simp add: str_int_def str_nat.simps asc_def)
  show ?thesis
    using search_http_error [OF 1 2 3 4 5 6 7 8] by (simp add: s asc_def)
qed

text \<open>
  The claim's second half says that the process exits with a non-zero status on other
  exceptions only, not after a non-2xx response. A 403 response ends the run with exit
  status 1.
\<close>

theorem search_http_error_exit_counterexample:
  "exit_code (search_main plain_runtime (query_env (asc ''x'') forbidden)) \<noteq> 0"
  by (simp add: search_main_def query_env_def dict_get_def asc_def search_brave_def search_url_def
      quote_def utf8_char_def forbidden_def search_failed_def utf8_decode_def
      split: option.splits)

subsection \<open>Validation of the query\<close>

text \<open>
  Claim C2. When the invocation is well formed and its \<^verbatim>\<open>query\<close> parameter is missing,
  the empty string or null, the skill prints the failure envelope with a non-empty error
  string, sends no request, and the process exits with status 0.
\<close>

theorem search_missing_query:
  assumes "search_params env = Some ps"
    and "map_of ps (asc ''query'') = None \<or> map_of ps (asc ''query'') = Some (JStr [])
         \<or> map_of ps (asc ''query'') = Some JNull"
  shows "search_main rt env =
           \<lparr>stdout = [JObj [(asc ''success'', JBool False), (asc ''error'', JStr msg_need_query)]],
            exit_code = 0, requests = []\<rparr>
         \<and> msg_need_query \<noteq> []"
proof -
  from assms(2)
  have "map_of ps (asc ''query'') = None \<or> (\<exists>v. map_of ps (asc ''query'') = Some v \<and> \<not> truthy v)"
    by auto
  from search_main_no_query [OF assms(1) this]
  show ?thesis by (simp add: error_envelope_def msg_need_query_def)
qed

theorem search_missing_query_witness:
  "search_main plain_runtime (query_env [] one_result) =
     \<lparr>stdout = [JObj [(asc ''success'', JBool False), (asc ''error'', JStr msg_need_query)]],
      exit_code = 0, requests = []\<rparr>
   \<and> msg_need_query \<noteq> []"
proof -
  have 1: "search_params (query_env [] one_result) = Some [(asc ''query'', JStr [])]"
    by (simp add: search_params_def query_env_def)
  have 2: "map_of [(asc ''query'', JStr [])] (asc ''query'') = None
           \<or> map_of [(asc ''query'', JStr [])] (asc ''query'') = Some (JStr [])
           \<or> map_of [(asc ''query'', JStr [])] (asc ''query'') = Some JNull"
    by simp
  show ?thesis
    using search_missing_query [OF 1 2] by simp
qed

subsection \<open>Successful searches\<close>

text \<open>
  Claim C5, as the code has it. When the request is answered by a 2xx response whose JSON
  body is a mapping with a mapping \<^verbatim>\<open>web\<close> holding a list \<^verbatim>\<open>results\<close> of mappings, and
  the title, url and description of every result can be printed (they hold no lone
  surrogate), the skill prints the success envelope whose \<^verbatim>\<open>data.results\<close> holds,
  element by element and in order, the record \<^verbatim>\<open>{title, url, description}\<close> of each
  result, a missing field being the empty string, and whose message is \<^verbatim>\<open>'.. N ...'\<close>
  with N the decimal length of the list; the process exits with status 0.
\<close>

theorem search_success:
  assumes "search_params env = Some ps"
    and "map_of ps (asc ''query'') = Some query" and "truthy query"
    and "BRAVE_API_KEY env = Some api_key" and "api_key \<noteq> []"
    and "search_url rt query (param_or ps (asc ''count'') (JInt 5))
           (param_or ps (asc ''offset'') (JInt 0)) = Inr u"
    and "urlopen env (build_request u api_key) = Response (Inr (JObj body))"
    and "map_of body (asc ''web'') = Some (JObj web)"
    and "map_of web (asc ''results'') = Some (JArr items)"
    and "\<forall>item \<in> set items. is_dict item"
    and "\<forall>item \<in> set items. printable_json (flat_record item)"
  shows "search_main rt env =
           \<lparr>stdout = [JObj [(asc ''success'', JBool True),
                            (asc ''data'', JObj [(asc ''results'', JArr (map flat_record items))]),
                            (asc ''message'',
                             JStr (msg_found @ str_int (int (length items)) @ msg_results))]],
            exit_code = 0, requests = [build_request u api_key]\<rparr>"
proof -
  have "search_brave rt env query api_key (param_or ps (asc ''count'') (JInt 5))
          (param_or ps (asc ''offset'') (JInt 0))
        = ([build_request u api_key], Inr (map flat_record items))"
    using assms(6,7) parse_results_well_formed [OF assms(8-10)] by (simp add: search_brave_def)
  moreover have "printable_json (success_envelope (map flat_record items)
                   (msg_found @ str_int (int (length items)) @ msg_results))"
    using assms(11) by (simp add: success_envelope_def)
  ultimately show ?thesis
    using search_main_reaches_network [OF assms(1-5), of rt]
    by (simp add: search_output_def py_print_None) (simp add: success_envelope_def)
qed

theorem search_success_witness:
  "search_main plain_runtime (query_env (asc ''x y'') twelve_results) =
     \<lparr>stdout = [JObj [(asc ''success'', JBool True),
                      (asc ''data'', JObj [(asc ''results'',
                         JArr (JObj [(asc ''title'', JStr (asc ''A'')),
                                     (asc ''url'', JStr (asc ''http://a'')),
                                     (asc ''description'', JStr (asc ''d''))]
                               # replicate 11 (JObj [(asc ''title'', JStr [0x4E2D]),
                                                     (asc ''url'', JStr []),
                                                     (asc ''description'', JStr [])])))]),
                      (asc ''message'', JStr (msg_found @ asc ''12'' @ msg_results))]],
      exit_code = 0,
      requests = [build_request (BRAVE_API_URL @ asc ''?q=x%20y&count=5&offset=0'') (asc ''key'')]\<rparr>"
proof -
  let ?env = "query_env (asc ''x y'') twelve_results"
  let ?u = "BRAVE_API_URL @ asc ''?q=x%20y&count=5&offset=0''"
  let ?a = "JObj [(asc ''title'', JStr (asc ''A'')), (asc ''url'', JStr (asc ''http://a'')),
                  (asc ''description'', JStr (asc ''d''))]"
  let ?b = "JObj [(asc ''title'', JStr [0x4E2D])]"
  let ?items = "?a # replicate 11 ?b"
  have 1: "search_params ?env = Some [(asc ''query'', JStr (asc ''x y''))]"
    by (simp add: search_params_def query_env_def)
  have 2: "map_of [(asc ''query'', JStr (asc ''x y''))] (asc ''query'') = Some (JStr (asc ''x y''))"
    by simp
  have 3: "truthy (JStr (asc ''x y''))" by (simp add: asc_def)
  have 4: "BRAVE_API_KEY ?env = Some (asc ''key'')" by (simp add: query_env_def)
  have 5: "asc ''key'' \<noteq> []" by (simp add: asc_def)
  have 6: "search_url plain_runtime (JStr (asc ''x y''))
             (param_or [(asc ''query'', JStr (asc ''x y''))] (asc ''count'') (JInt 5))
             (param_or [(asc ''query'', JStr (asc ''x y''))] (asc ''offset'') (JInt 0)) = Inr ?u"
    by (simp add: search_url_def quote_def param_or_def asc_def utf8_char_def quote_byte_def
        always_safe_def hex_digit_def format_value_def str_int_def str_nat.simps)
  have 7: "urlopen ?env (build_request ?u (asc ''key'')) =
             Response (Inr (JObj [(asc ''web'', JObj [(asc ''results'', JArr ?items)])]))"
    by (simp add: query_env_def twelve_results_def)
  have 8: "map_of [(asc ''web'', JObj [(asc ''results'', JArr ?items)])] (asc ''web'')
             = Some (JObj [(asc ''results'', JArr ?items)])"
    by simp
  have 9: "map_of [(asc ''results'', JArr ?items)] (asc ''results'') = Some (JArr ?items)"
    by simp
  have 10: "\<forall>item \<in> set ?items. is_dict item" by simp
  have fa: "flat_record ?a = ?a"
    by (simp add: flat_record_def asc_def)
  have fb: "flat_record ?b = JObj [(asc ''title'', JStr [0x4E2D]), (asc ''url'', JStr []),
                                   (asc ''description'', JStr [])]"
    by (simp add: flat_record_def asc_def)
  have 11: "\<forall>item \<in> set ?items. printable_json (flat_record item)"
    unfolding set_simps ball_simps fa using fb by (simp add: utf8_char_None)
  have s: "str_int (int (length ?items)) = asc ''12''"
    by (simp add: str_int_def str_nat.simps asc_def)
  show ?thesis
    using search_success [OF 1 2 3 4 5 6 7 8 9 10 11] unfolding list.map map_replicate fa fb s
    by simp
qed

text \<open>
  The claim speaks of every well-formed response. A result whose title is a lone
  surrogate, which \<^verbatim>\<open>json.loads\<close> reads from the escape \<^verbatim>\<open>\ud800\<close>, cannot be printed:
  the print of the success envelope raises, and the handler of \<^verbatim>\<open>main\<close> prints a
  failure envelope and ends the process with status 1.
\<close>

theorem search_unprintable_result_counterexample:
  "search_main plain_runtime (query_env (asc ''x'') surrogate_result) =
     \<lparr>stdout = [JObj [(asc ''success'', JBool False), (asc ''error'', JStr (asc ''error''))]],
      exit_code = 1,
      requests = [build_request (BRAVE_API_URL @ asc ''?q=x&count=5&offset=0'') (asc ''key'')]\<rparr>"
  by (simp add: search_main_def query_env_def dict_get_def asc_def search_brave_def search_url_def
      quote_def utf8_char_def surrogate_result_def search_failed_def search_output_def
      parse_results_def iterate_def result_record_def success_envelope_def py_print_def
      printable_def error_envelope_def str_exn_def plain_runtime_def format_value_def
      str_int_def str_nat.simps quote_byte_def always_safe_def hex_digit_def BRAVE_API_URL_def
      build_request_def)

section \<open>Properties of the file skill\<close>

subsection \<open>The entry point\<close>

lemma printable_file_literals [simp]:
  "printable msg_no_input" "printable msg_need_action" "printable msg_need_path"
  "printable msg_unknown_action" "printable msg_not_found" "printable msg_read_failed"
  "printable msg_written" "printable msg_write_failed" "printable msg_created"
  "printable msg_create_failed" "printable msg_deleted" "printable msg_delete_failed"
  "printable msg_file" "printable msg_present" "printable msg_absent"
  "printable msg_check_failed"
  by (simp_all add: msg_no_input_def msg_need_action_def msg_need_path_def
      msg_unknown_action_def msg_not_found_def msg_read_failed_def msg_written_def
      msg_write_failed_def msg_created_def msg_create_failed_def msg_deleted_def
      msg_delete_failed_def msg_file_def msg_present_def msg_absent_def msg_check_failed_def
      utf8_char_None)

lemma output_result_printable:
  "printable_json r \<Longrightarrow>
   output_result rt fs r = \<lparr>stdout = [r], exit_code = 0, disk_after = fs\<rparr>"
  by (simp add: output_result_def py_print_None)

lemma file_main_dispatch:
  assumes "file_params env = Some ps"
    and "truthy (param_or ps (asc ''action'') JNull)"
    and "truthy (param_or ps (asc ''path'') JNull)"
  shows "file_main rt env =
     (case dispatch rt (disk env) (workdir env)
             (param_or ps (asc ''action'') JNull) (param_or ps (asc ''path'') JNull)
             (param_or ps (asc ''content'') (JStr []))
             (param_or ps (asc ''encoding'') (JStr (asc ''utf-8''))) of
        (result, fs') \<Rightarrow> output_result rt fs' result)"
proof -
  from assms(1) obtain input_data where
    i: "(case BAIZE_PARAMS env of Some loaded \<Rightarrow> Some loaded | None \<Rightarrow> stdin env)
          = Some (Inr input_data)"
    and p: "params_of input_data = Some ps"
    by (auto simp: file_params_def split: option.splits sum.splits)
  from p obtain kvs where k: "input_data = JObj kvs" by (cases input_data) auto
  from assms(2) have "ps \<noteq> []" by (auto simp: param_or_def)
  with p k have "map_of kvs (asc ''params'') = Some (JObj ps)"
    by (auto split: option.splits json.splits)
  then have d: "dict_get input_data (asc ''params'') (JObj []) = Inr (JObj ps)"
    by (simp add: k dict_get_def)
  have g: "\<And>key dflt. dict_get (JObj ps) key dflt = Inr (param_or ps key dflt)"
    by (simp add: dict_get_def param_or_def split: option.splits)
  show ?thesis
    unfolding file_main_def i using assms(2,3) by (simp add: d g)
qed

lemma file_main_action:
  assumes "file_params env = Some ps"
    and "map_of ps (asc ''action'') = Some (JStr a)" and "a \<noteq> []"
    and "map_of ps (asc ''path'') = Some file_path" and "truthy file_path"
  shows "file_main rt env =
     (case dispatch rt (disk env) (workdir env) (JStr a) file_path
             (param_or ps (asc ''content'') (JStr []))
             (param_or ps (asc ''encoding'') (JStr (asc ''utf-8''))) of
        (result, fs') \<Rightarrow> output_result rt fs' result)"
proof -
  have a: "param_or ps (asc ''action'') JNull = JStr a"
    and f: "param_or ps (asc ''path'') JNull = file_path"
    using assms by (simp_all add: param_or_def)
  have t1: "truthy (param_or ps (asc ''action'') JNull)"
    unfolding a using assms(3) by simp
  have t2: "truthy (param_or ps (asc ''path'') JNull)"
    unfolding f using assms(5) by simp
  show ?thesis
    unfolding file_main_dispatch [OF assms(1) t1 t2] a f ..
qed

lemma asc_inject [simp]: "asc s = asc t \<longleftrightarrow> s = t"
  by (simp add: asc_def inj_map_eq_map [OF inj_of_char])

lemma asc_nonempty [simp]: "asc (c # s) \<noteq> []"
  by (simp add: asc_def)

lemma dispatch_read:
  "dispatch rt fs cwd (JStr (asc ''read'')) fp c e = (read_file rt fs cwd fp e, fs)"
  by (simp add: dispatch_def)

lemma dispatch_write:
  "dispatch rt fs cwd (JStr (asc ''write'')) fp c e = write_file rt fs cwd fp c e"
  by (simp add: dispatch_def)

lemma dispatch_create:
  "dispatch rt fs cwd (JStr (asc ''create'')) fp c e = create_file rt fs cwd fp c e"
  by (simp add: dispatch_def)



lemma file_params_invoke: "file_params (invoke ps fs) = Some ps"
  by (simp add: file_params_def invoke_def)

lemma disk_invoke: "disk (invoke ps fs) = fs" "workdir (invoke ps fs) = home"
  by (simp_all add: invoke_def)

subsection \<open>Lengths\<close>

lemma fs_length_append [simp]: "fs_length (s @ t) = fs_length s + fs_length t"
  by (simp add: fs_length_def)

lemma fs_length_replicate [simp]: "fs_length (replicate n c) = n * char_bytes c"
  by (induction n) (simp_all add: fs_length_def)

lemma join_slash_snoc:
  "join_slash (ps @ [c]) = (if ps = [] then c else join_slash ps @ 47 # c)"
  by (induction ps rule: join_slash.induct) auto

lemma path_str_snoc:
  "fs_length (path_str (PurePath k qs)) \<le> max 1 (fs_length (path_str (PurePath k (qs @ [c]))))"
  by (auto simp: path_str_def join_slash_snoc asc_def char_bytes_def)
    (simp_all add: fs_length_def char_bytes_def)

lemma path_str_parent: "fs_length (path_str (parent p)) \<le> max 1 (fs_length (path_str p))"
proof (cases "parts p" rule: rev_cases)
  case Nil
  then have "parent p = p" by (cases p) (simp add: parent_def)
  then show ?thesis by simp
next
  case (snoc qs c)
  then have "p = PurePath (slashes p) (qs @ [c])" "parent p = PurePath (slashes p) qs"
    by (cases p, simp add: parent_def)+
  then show ?thesis using path_str_snoc [of "slashes p" qs c] by simp
qed

lemma os_arg_None: "os_arg p = None \<longleftrightarrow> os_path_ok p \<and> fs_length (path_str p) < PATH_MAX"
  by (auto simp: os_arg_def)

lemma os_path_ok_parent: "os_path_ok p \<Longrightarrow> os_path_ok (parent p)"
  by (auto simp: os_path_ok_def parent_def list_all_iff dest: in_set_butlastD)

lemma os_arg_parent: "os_arg p = None \<Longrightarrow> os_arg (parent p) = None"
  using path_str_parent [of p] by (auto simp: os_arg_None os_path_ok_parent PATH_MAX_def)

subsection \<open>Path resolution\<close>

lemma walk_snoc:
  "walk fs cur (ps @ [c]) =
     (case walk fs cur ps of
        Inl e \<Rightarrow> Inl e
      | Inr d \<Rightarrow>
          (case fs d of
             None \<Rightarrow> Inl ENOENT
           | Some (File bs) \<Rightarrow> Inl ENOTDIR
           | Some Dir \<Rightarrow>
               if NAME_MAX < fs_length c then Inl ENAMETOOLONG else Inr (step d c)))"
  by (induction ps arbitrary: cur) (auto simp: step_def split: option.splits node.splits)

lemma walk_update:
  "walk fs cur ps = Inr d \<Longrightarrow> fs l \<noteq> Some Dir \<Longrightarrow> walk (fs(l := x)) cur ps = Inr d"
proof (induction ps arbitrary: cur)
  case Nil
  then show ?case by simp
next
  case (Cons c cs)
  from Cons.prems(1) have "fs cur = Some Dir"
    by (auto split: option.splits node.splits)
  with Cons.prems(2) have "cur \<noteq> l" by auto
  with Cons \<open>fs cur = Some Dir\<close> show ?case by (simp split: if_splits)
qed

lemma lexical_nonempty [simp]: "lexical cur ps \<noteq> []"
  by (cases ps) auto

lemma lexical_snoc: "lexical cur (ps @ [c]) = lexical cur ps @ [step (last (lexical cur ps)) c]"
  by (induction ps arbitrary: cur) auto

lemma walk_lexical:
  "list_all short ps \<Longrightarrow>
   walk fs cur ps = Inr d \<longleftrightarrow>
     d = last (lexical cur ps) \<and> (\<forall>l \<in> set (butlast (lexical cur ps)). fs l = Some Dir)"
proof (induction ps arbitrary: cur)
  case Nil
  then show ?case by auto
next
  case (Cons c cs)
  then have "short c" and cs: "list_all short cs" by simp_all
  then have s: "\<not> NAME_MAX < fs_length c" by (simp add: short_def)
  show ?case
  proof (cases "fs cur = Some Dir")
    case True
    then show ?thesis using Cons.IH [OF cs, of "step cur c"] s by (simp add: step_def)
  next
    case False
    then show ?thesis by (auto split: option.splits node.splits)
  qed
qed


lemma walk_error:
  "list_all short ps \<Longrightarrow> walk fs cur ps = Inl e
   \<Longrightarrow> \<forall>l \<in> set (butlast (lexical cur ps)). \<not> is_file (fs l) \<Longrightarrow> e = ENOENT"
proof (induction ps arbitrary: cur)
  case Nil
  then show ?case by simp
next
  case (Cons c cs)
  then have "short c" and cs: "list_all short cs" by simp_all
  then have s: "\<not> NAME_MAX < fs_length c" by (simp add: short_def)
  show ?case
  proof (cases "fs cur")
    case None
    with Cons.prems show ?thesis by simp
  next
    case (Some n)
    from Cons.prems(3) have "\<not> is_file (fs cur)" by simp
    with Some have n: "n = Dir" by (cases n) (auto simp: is_file_def)
    from Cons.prems(3) have "\<forall>l \<in> set (butlast (lexical (step cur c) cs)). \<not> is_file (fs l)"
      by simp
    moreover from Cons.prems(2) Some n s have "walk fs (step cur c) cs = Inl e"
      by (simp add: step_def)
    ultimately show ?thesis using Cons.IH [OF cs] by blast
  qed
qed



subsection \<open>Evaluating the examples\<close>

lemmas path_eval = str_path_def leading_slashes_def asc_def Path_def parent_def os_path_ok_def
  fs_encodable_def utf8_char_def start_def os_stat_def os_arg_def path_str_def fs_length_def
  char_bytes_def NAME_MAX_def PATH_MAX_def lookup_answer_def path_exists_def is_dir_def
  resolve_entry_def home_def bare_disk_def note_disk_def within_limits_def short_def
  node_at_def present_def step_def

lemmas skill_eval = file_main_def invoke_def dict_get_def dispatch_def output_error_def
  output_result_def file_failed_def py_print_def
  read_file_def write_file_def create_file_def delete_file_def exists_file_def
  error_envelope_def format_value_def str_exn_def plain_runtime_def
  read_text_def write_text_def str_encode_def unlink_def text_encoding_def encoding_name_def
  lookup_codec_def utf8_codec_def utf8_decode_def os_mkdir_def mkdir_here_def exists_ok_def
  mkdir_parents.simps is_not_found_def is_os_error_def st_size_def


lemma wf_bare: "well_formed bare_disk"
  by (auto simp: well_formed_def bare_disk_def home_def asc_def split: if_splits)

subsection \<open>Existence checks\<close>







subsection \<open>Reading a path that does not exist\<close>




subsection \<open>Unknown actions\<close>

text \<open>
  Claim C9, as the code has it. For every non-empty action string other than \<^verbatim>\<open>read\<close>,
  \<^verbatim>\<open>write\<close>, \<^verbatim>\<open>create\<close>, \<^verbatim>\<open>delete\<close> and \<^verbatim>\<open>exists\<close> that can be printed (it holds no
  lone surrogate), given with a non-empty path, the skill prints a failure envelope whose
  error string names the action, and returns normally: the process exits with status 0
  and the file system is left as it was.
\<close>

theorem unknown_action:
  assumes "file_params env = Some ps"
    and "map_of ps (asc ''action'') = Some (JStr a)" and "a \<noteq> []"
    and "a \<notin> {asc ''read'', asc ''write'', asc ''create'', asc ''delete'', asc ''exists''}"
    and "printable a"
    and "map_of ps (asc ''path'') = Some file_path" and "truthy file_path"
  shows "file_main rt env =
           \<lparr>stdout = [JObj [(asc ''success'', JBool False),
                            (asc ''error'', JStr (msg_unknown_action @ a))]],
            exit_code = 0, disk_after = disk env\<rparr>
         \<and> sublist a (msg_unknown_action @ a)"
proof -
  from assms(4) have "dispatch rt (disk env) (workdir env) (JStr a) file_path
        (param_or ps (asc ''content'') (JStr []))
        (param_or ps (asc ''encoding'') (JStr (asc ''utf-8'')))
      = (error_envelope (msg_unknown_action @ a), disk env)"
    by (simp add: dispatch_def format_value_def)
  with file_main_action [OF assms(1,2,3,6,7), of rt] assms(5)
  show ?thesis
    by (simp add: output_result_printable) (simp add: error_envelope_def)
qed

theorem unknown_action_witness:
  "file_main plain_runtime
     (invoke [(asc ''action'', JStr (asc ''frobnicate'')), (asc ''path'', JStr (asc ''note.txt''))]
        note_disk)
   = \<lparr>stdout = [JObj [(asc ''success'', JBool False),
                      (asc ''error'', JStr (msg_unknown_action @ asc ''frobnicate''))]],
      exit_code = 0, disk_after = note_disk\<rparr>
   \<and> sublist (asc ''frobnicate'') (msg_unknown_action @ asc ''frobnicate'')"
proof -
  let ?ps = "[(asc ''action'', JStr (asc ''frobnicate'')),
              (asc ''path'', JStr (asc ''note.txt''))]"
  have a: "map_of ?ps (asc ''action'') = Some (JStr (asc ''frobnicate''))" by simp
  have p: "map_of ?ps (asc ''path'') = Some (JStr (asc ''note.txt''))" by simp
  have n: "asc ''frobnicate'' \<noteq> []" by simp
  have u: "asc ''frobnicate'' \<notin> {asc ''read'', asc ''write'', asc ''create'', asc ''delete'',
             asc ''exists''}"
    by simp
  have pr: "printable (asc ''frobnicate'')" by simp
  have t: "truthy (JStr (asc ''note.txt''))" by simp
  show ?thesis
    using unknown_action [OF file_params_invoke a n u pr p t, of plain_runtime note_disk]
    by (simp add: disk_invoke)
qed

text \<open>
  The claim speaks of every action string. One that holds a lone surrogate is named in a
  failure result that cannot be printed: the print raises, and the top-level handler
  prints another envelope and ends the process with status 1.
\<close>

theorem unknown_action_unprintable_counterexample:
  "file_main plain_runtime
     (invoke [(asc ''action'', JStr [0xD800]), (asc ''path'', JStr (asc ''note.txt''))] note_disk)
   = \<lparr>stdout = [JObj [(asc ''success'', JBool False), (asc ''error'', JStr (asc ''error''))]],
      exit_code = 1, disk_after = note_disk\<rparr>"
  by (simp add: skill_eval asc_def msg_unknown_action_def utf8_char_def)

subsection \<open>Directory entries\<close>

lemma resolve_entry_Inr:
  "resolve_entry fs cwd p e_dir = Inr l \<longleftrightarrow>
     os_arg p = None \<and> parts p \<noteq> [] \<and> short (last (parts p)) \<and> last (parts p) \<noteq> asc ''..''
     \<and> (\<exists>d. walk fs (start cwd p) (butlast (parts p)) = Inr d \<and> fs d = Some Dir
              \<and> l = d @ [last (parts p)])"
  by (auto simp: resolve_entry_def short_def split: sum.splits option.splits node.splits)

lemma os_stat_entry:
  assumes "resolve_entry fs cwd p e_dir = Inr l"
  shows "os_stat fs cwd p =
           (case fs l of None \<Rightarrow> Inl (OSError ENOENT (path_str p)) | Some n \<Rightarrow> Inr n)"
proof -
  from assms obtain d where ok: "os_arg p = None" and ne: "parts p \<noteq> []"
    and sh: "short (last (parts p))" and nd: "last (parts p) \<noteq> asc ''..''"
    and w: "walk fs (start cwd p) (butlast (parts p)) = Inr d" and d: "fs d = Some Dir"
    and l: "l = d @ [last (parts p)]"
    by (auto simp: resolve_entry_Inr)
  have "walk fs (start cwd p) (butlast (parts p) @ [last (parts p)]) = Inr l"
    unfolding walk_snoc using w d nd l sh by (simp add: step_def short_def)
  with ne have "walk fs (start cwd p) (parts p) = Inr l" by simp
  with ok show ?thesis by (simp add: os_stat_def)
qed

lemma resolve_entry_update:
  assumes "resolve_entry fs cwd p e_dir = Inr l" and "fs l \<noteq> Some Dir"
  shows "resolve_entry (fs(l := x)) cwd p e_dir' = Inr l"
proof -
  from assms obtain d where ok: "os_arg p = None" and ne: "parts p \<noteq> []"
    and sh: "short (last (parts p))" and nd: "last (parts p) \<noteq> asc ''..''"
    and w: "walk fs (start cwd p) (butlast (parts p)) = Inr d" and d: "fs d = Some Dir"
    and l: "l = d @ [last (parts p)]"
    by (auto simp: resolve_entry_Inr)
  from d assms(2) have "d \<noteq> l" by auto
  with walk_update [OF w assms(2), of x] d ok ne nd l sh show ?thesis
    by (simp add: resolve_entry_Inr)
qed

lemma is_dir_parent_entry:
  assumes "resolve_entry fs cwd p e_dir = Inr l"
  shows "is_dir fs cwd (parent p) = Inr True"
proof -
  from assms obtain d where ok: "os_arg p = None"
    and w: "walk fs (start cwd p) (butlast (parts p)) = Inr d" and d: "fs d = Some Dir"
    by (auto simp: resolve_entry_Inr)
  have "start cwd (parent p) = start cwd p" "parts (parent p) = butlast (parts p)"
    by (simp_all add: start_def parent_def)
  with w d os_arg_parent [OF ok] show ?thesis
    by (simp add: is_dir_def os_stat_def lookup_answer_def)
qed

lemma well_formed_butlast:
  "well_formed fs \<Longrightarrow> fs d = Some Dir \<Longrightarrow> fs (butlast d) = Some Dir"
  by (cases d rule: rev_cases) (auto simp: well_formed_def)


subsection \<open>Writing\<close>

lemma write_file_store:
  "write_file rt fs cwd file_path content encoding =
     (case store rt fs cwd file_path content encoding of
        (Inl e, fs') \<Rightarrow> (error_envelope (msg_write_failed @ str_exn rt e), fs')
      | (Inr n, fs') \<Rightarrow>
          (JObj [(asc ''success'', JBool True),
                 (asc ''data'', JObj [(asc ''path'', file_path), (asc ''size'', JInt (int n))]),
                 (asc ''message'', JStr (msg_written @ format_value rt file_path))], fs'))"
  by (simp add: write_file_def store_def split: sum.splits prod.splits option.splits)

lemma create_file_store:
  "create_file rt fs cwd file_path content encoding =
     (case store rt fs cwd file_path content encoding of
        (Inl e, fs') \<Rightarrow> (error_envelope (msg_create_failed @ str_exn rt e), fs')
      | (Inr n, fs') \<Rightarrow>
          (JObj [(asc ''success'', JBool True),
                 (asc ''data'', JObj [(asc ''path'', file_path), (asc ''size'', JInt (int n))]),
                 (asc ''message'', JStr (msg_created @ format_value rt file_path))], fs'))"
  by (simp add: create_file_def store_def split: sum.splits prod.splits option.splits)

lemma write_text_Inr:
  "write_text rt fs cwd p data encoding = (fs2, Inr u) \<longleftrightarrow>
     (\<exists>s name l cd bs. data = JStr s \<and> text_encoding rt encoding = Inr name
        \<and> resolve_entry fs cwd p EISDIR = Inr l \<and> fs l \<noteq> Some Dir
        \<and> lookup_codec rt name = Some cd \<and> file_encode cd s = Some bs
        \<and> fs2 = fs(l \<mapsto> File bs))"
  by (cases data) (auto simp: write_text_def split: sum.splits option.splits node.splits)

lemma text_encoding_JStr:
  "text_encoding rt (JStr name) = Inr name' \<longleftrightarrow> encoding_name name = None \<and> name' = name"
  by (auto simp: text_encoding_def split: option.splits)

lemma store_Inr:
  "store rt fs cwd file_path content encoding = (Inr n, fs2) \<longleftrightarrow>
     (\<exists>p s name fs1 l cd bs bs'. file_path = JStr p \<and> content = JStr s \<and> encoding = JStr name
        \<and> mkdir_parents (mkdir_depth rt) fs cwd (parent (str_path p)) = (fs1, None)
        \<and> resolve_entry fs1 cwd (str_path p) EISDIR = Inr l \<and> fs1 l \<noteq> Some Dir
        \<and> encoding_name name = None
        \<and> lookup_codec rt name = Some cd \<and> file_encode cd s = Some bs
        \<and> encode cd s = Some bs'
        \<and> n = length bs' \<and> fs2 = fs1(l \<mapsto> File bs))"
  (is "?L \<longleftrightarrow> ?R")
proof
  assume a: ?L
  then obtain path where p: "Path file_path = Inr path"
    by (auto simp: store_def split: sum.splits)
  then obtain ps where fp: "file_path = JStr ps" and path: "path = str_path ps"
    by (cases file_path) (auto simp: Path_def)
  from a p obtain fs1 where m: "mkdir_parents (mkdir_depth rt) fs cwd (parent path) = (fs1, None)"
    by (auto simp: store_def split: sum.splits prod.splits option.splits)
  from a p m obtain u where w: "write_text rt fs1 cwd path content encoding = (fs2, Inr u)"
    by (auto simp: store_def split: sum.splits prod.splits)
  from a p m w obtain bs' where e: "str_encode rt content encoding = Inr bs'"
    and n: "n = length bs'"
    by (auto simp: store_def split: sum.splits)
  from w obtain s name l cd bs where c: "content = JStr s"
    and te: "text_encoding rt encoding = Inr name"
    and r: "resolve_entry fs1 cwd path EISDIR = Inr l" and nd: "fs1 l \<noteq> Some Dir"
    and lc: "lookup_codec rt name = Some cd" and en: "file_encode cd s = Some bs"
    and fs2: "fs2 = fs1(l \<mapsto> File bs)"
    unfolding write_text_Inr by blast
  from e c obtain name' where enc: "encoding = JStr name'"
    by (cases encoding) (auto simp: str_encode_def)
  with te have nm: "name' = name" "encoding_name name = None"
    by (simp_all add: text_encoding_JStr)
  with e c enc lc have en': "encode cd s = Some bs'"
    by (auto simp: str_encode_def split: option.splits)
  from fp path m r nd lc en en' n fs2 c enc nm
  show ?R by blast
next
  assume ?R
  then obtain p s name fs1 l cd bs bs' where h: "file_path = JStr p" "content = JStr s"
    "encoding = JStr name"
    "mkdir_parents (mkdir_depth rt) fs cwd (parent (str_path p)) = (fs1, None)"
    "resolve_entry fs1 cwd (str_path p) EISDIR = Inr l" "fs1 l \<noteq> Some Dir"
    "encoding_name name = None"
    "lookup_codec rt name = Some cd" "file_encode cd s = Some bs" "encode cd s = Some bs'"
    "n = length bs'" "fs2 = fs1(l \<mapsto> File bs)"
    by blast
  have "write_text rt fs1 cwd (str_path p) (JStr s) (JStr name) = (fs2, Inr ())"
    unfolding write_text_Inr using h by (simp add: text_encoding_JStr)
  with h show ?L
    by (simp add: store_def Path_def str_encode_def)
qed

lemma stored_file:
  assumes "resolve_entry fs1 cwd p EISDIR = Inr l" and "fs1 l \<noteq> Some Dir"
  shows "os_stat (fs1(l \<mapsto> File bs)) cwd p = Inr (File bs)"
    and "is_dir (fs1(l \<mapsto> File bs)) cwd (parent p) = Inr True"
proof -
  have r: "resolve_entry (fs1(l \<mapsto> File bs)) cwd p EISDIR = Inr l"
    by (rule resolve_entry_update [OF assms])
  show "os_stat (fs1(l \<mapsto> File bs)) cwd p = Inr (File bs)"
    by (simp add: os_stat_entry [OF r])
  show "is_dir (fs1(l \<mapsto> File bs)) cwd (parent p) = Inr True"
    by (rule is_dir_parent_entry [OF r])
qed

subsection \<open>Creating directories\<close>

lemma not_file_cases: "\<not> is_file n \<Longrightarrow> n = None \<or> n = Some Dir"
  by (auto simp: is_file_def split: option.splits node.splits)

lemma well_formed_step:
  assumes "well_formed fs" and "fs d = Some Dir"
  shows "well_formed (fs(step d c \<mapsto> Dir))"
proof (cases "c = asc ''..''")
  case True
  with well_formed_butlast [OF assms] have "fs(step d c \<mapsto> Dir) = fs"
    by (auto simp: step_def)
  with assms(1) show ?thesis by simp
next
  case False
  then have s: "step d c = d @ [c]" by (simp add: step_def)
  show ?thesis
    unfolding well_formed_def s
  proof (intro conjI allI impI)
    show "(fs(d @ [c] \<mapsto> Dir)) [] = Some Dir"
      using assms(1) by (simp add: well_formed_def)
  next
    fix l n
    assume a: "(fs(d @ [c] \<mapsto> Dir)) (l @ [n]) \<noteq> None"
    show "(fs(d @ [c] \<mapsto> Dir)) l = Some Dir"
    proof (cases "l @ [n] = d @ [c]")
      case True
      then have "l = d" by simp
      with assms(2) show ?thesis by simp
    next
      case False
      with a have "fs (l @ [n]) \<noteq> None" by (auto split: if_splits)
      with assms(1) have "fs l = Some Dir" unfolding well_formed_def by blast
      then show ?thesis by simp
    qed
  qed
qed

lemma mkdir_last:
  assumes wf: "well_formed fs" and ok: "os_arg q = None" and ps: "parts q = qs @ [c]"
    and sh: "list_all short (qs @ [c])"
    and dirs: "\<forall>l \<in> set (lexical (start cwd q) qs). fs l = Some Dir"
    and nf: "\<not> is_file (fs (step (last (lexical (start cwd q) qs)) c))"
  shows "mkdir_here fs cwd q = (fs(step (last (lexical (start cwd q) qs)) c \<mapsto> Dir), None)"
    and "0 < depth \<Longrightarrow>
         mkdir_parents depth fs cwd q
           = (fs(step (last (lexical (start cwd q) qs)) c \<mapsto> Dir), None)"
proof -
  let ?d = "last (lexical (start cwd q) qs)"
  let ?t = "step ?d c"
  from sh have shq: "list_all short qs" and shc: "short c" by simp_all
  have w: "walk fs (start cwd q) qs = Inr ?d"
    unfolding walk_lexical [OF shq] using dirs by (auto dest: in_set_butlastD)
  have d: "fs ?d = Some Dir" using dirs by simp
  have w': "walk fs (start cwd q) (parts q) = Inr ?t"
    unfolding ps walk_snoc using w d shc by (simp add: short_def)
  have "os_mkdir fs cwd q = Inr (fs(?t \<mapsto> Dir))
        \<or> (\<exists>e. os_mkdir fs cwd q = Inl e \<and> \<not> is_not_found e \<and> is_os_error e)
            \<and> is_dir fs cwd q = Inr True \<and> fs(?t \<mapsto> Dir) = fs"
  proof (cases "c = asc ''..''")
    case True
    then have t: "fs ?t = Some Dir"
      using well_formed_butlast [OF wf d] by (simp add: step_def)
    have "os_mkdir fs cwd q = Inl (OSError EEXIST (path_str q))"
      using ok ps w d True shc by (simp add: os_mkdir_def resolve_entry_def short_def)
    moreover have "is_dir fs cwd q = Inr True"
      using ok w' t by (simp add: is_dir_def os_stat_def lookup_answer_def)
    moreover have "fs(?t \<mapsto> Dir) = fs" using t by auto
    ultimately show ?thesis by (simp add: is_not_found_def is_os_error_def)
  next
    case False
    then have s: "?t = ?d @ [c]" by (simp add: step_def)
    have r: "resolve_entry fs cwd q EEXIST = Inr ?t"
      using ok ps w d False s shc by (simp add: resolve_entry_def short_def)
    from not_file_cases [OF nf] show ?thesis
    proof
      assume "fs ?t = None"
      with r show ?thesis by (simp add: os_mkdir_def)
    next
      assume t: "fs ?t = Some Dir"
      with r have "os_mkdir fs cwd q = Inl (OSError EEXIST (path_str q))"
        by (simp add: os_mkdir_def)
      moreover have "is_dir fs cwd q = Inr True"
        using ok w' t by (simp add: is_dir_def os_stat_def lookup_answer_def)
      moreover have "fs(?t \<mapsto> Dir) = fs" using t by auto
      ultimately show ?thesis by (simp add: is_not_found_def is_os_error_def)
    qed
  qed
  then show "mkdir_here fs cwd q = (fs(?t \<mapsto> Dir), None)"
    and "0 < depth \<Longrightarrow> mkdir_parents depth fs cwd q = (fs(?t \<mapsto> Dir), None)"
    by (auto simp: mkdir_here_def exists_ok_def mkdir_parents.simps [of depth fs cwd q])
qed

lemma with_dirs_snoc:
  "\<forall>l \<in> set ls. fs l = Some Dir \<Longrightarrow> fs(t \<mapsto> Dir) = with_dirs fs (ls @ [t])"
  by (auto simp: with_dirs_def)

lemma with_dirs_step: "(with_dirs fs ls)(t \<mapsto> Dir) = with_dirs fs (ls @ [t])"
  by (auto simp: with_dirs_def)

lemma mkdir_parents_creates:
  assumes "well_formed fs" and "fs (if 0 < k then [] else cwd) = Some Dir"
    and "list_all fs_encodable qs" and "list_all short qs"
    and "fs_length (path_str (PurePath k qs)) < PATH_MAX"
    and "\<forall>l \<in> set (lexical (if 0 < k then [] else cwd) qs). \<not> is_file (fs l)"
    and "length qs < depth"
  shows "mkdir_parents depth fs cwd (PurePath k qs)
           = (with_dirs fs (lexical (if 0 < k then [] else cwd) qs), None)
         \<and> well_formed (with_dirs fs (lexical (if 0 < k then [] else cwd) qs))"
  using assms(3-7)
proof (induction qs arbitrary: depth rule: rev_induct)
  case Nil
  let ?q = "PurePath k []"
  from Nil.prems(3) have a: "os_arg ?q = None"
    by (simp add: os_arg_None os_path_ok_def)
  have "os_mkdir fs cwd ?q = Inl (OSError EEXIST (path_str ?q))"
    by (simp add: os_mkdir_def resolve_entry_def a)
  moreover have "is_dir fs cwd ?q = Inr True"
    using assms(2) by (simp add: is_dir_def os_stat_def a start_def lookup_answer_def)
  ultimately have "mkdir_parents depth fs cwd ?q = (fs, None)"
    using Nil.prems(5)
    by (simp add: mkdir_parents.simps [of depth fs cwd ?q] is_not_found_def is_os_error_def
        exists_ok_def)
  moreover have "with_dirs fs [if 0 < k then [] else cwd] = fs"
    using assms(2) by (auto simp: with_dirs_def)
  ultimately show ?case using assms(1) by simp
next
  case (snoc c qs)
  let ?s = "if 0 < k then [] else cwd"
  let ?q = "PurePath k (qs @ [c])"
  let ?L = "lexical ?s qs"
  let ?t = "step (last ?L) c"
  have st: "start cwd ?q = ?s" by (simp add: start_def)
  have ok: "os_arg ?q = None"
    using snoc.prems(1,3) by (simp add: os_arg_None os_path_ok_def)
  have ps: "parts ?q = qs @ [c]" by simp
  from snoc.prems(4) have nfL: "\<forall>l \<in> set ?L. \<not> is_file (fs l)" and nft: "\<not> is_file (fs ?t)"
    by (simp_all add: lexical_snoc)
  from snoc.prems(1) have enc: "list_all fs_encodable qs" by simp
  from snoc.prems(2) have shq: "list_all short qs" by simp
  have len: "fs_length (path_str (PurePath k qs)) < PATH_MAX"
    using path_str_snoc [of k qs c] snoc.prems(3) by (simp add: PATH_MAX_def)
  from snoc.prems(5) have dp: "0 < depth" and dq: "length qs < depth - 1" by simp_all
  note IH = snoc.IH [OF enc shq len nfL dq]
  show ?case
  proof (cases "\<forall>l \<in> set ?L. fs l = Some Dir")
    case True
    have "mkdir_parents depth fs cwd ?q = (fs(?t \<mapsto> Dir), None)"
      using mkdir_last(2) [OF assms(1) ok ps snoc.prems(2), of cwd depth] True nft dp
      by (simp add: st)
    moreover have "fs(?t \<mapsto> Dir) = with_dirs fs (lexical ?s (qs @ [c]))"
      unfolding lexical_snoc by (rule with_dirs_snoc [OF True])
    moreover have "well_formed (fs(?t \<mapsto> Dir))"
      using True by (intro well_formed_step [OF assms(1)]) simp
    ultimately show ?thesis by simp
  next
    case False
    have "resolve_entry fs cwd ?q EEXIST = Inl (OSError ENOENT (path_str ?q))"
    proof (cases "walk fs ?s qs")
      case (Inl e)
      with walk_error [OF shq Inl] nfL have "e = ENOENT" by (auto dest: in_set_butlastD)
      with Inl ok show ?thesis by (simp add: resolve_entry_def st)
    next
      case (Inr d)
      then have d: "d = last ?L" and b: "\<forall>l \<in> set (butlast ?L). fs l = Some Dir"
        unfolding walk_lexical [OF shq] by auto
      have "fs d \<noteq> Some Dir"
      proof
        assume "fs d = Some Dir"
        with d b have "\<forall>l \<in> set ?L. fs l = Some Dir"
          by (metis append_butlast_last_id lexical_nonempty rotate1.simps(2) set_ConsD set_rotate1)
        with False show False ..
      qed
      moreover from nfL d have "\<not> is_file (fs d)" by simp
      ultimately have "fs d = None" using not_file_cases by blast
      with Inr ok show ?thesis by (simp add: resolve_entry_def st)
    qed
    then have m: "os_mkdir fs cwd ?q = Inl (OSError ENOENT (path_str ?q))"
      by (simp add: os_mkdir_def)
    have par: "parent ?q = PurePath k qs" by (simp add: parent_def)
    from IH have p: "mkdir_parents (depth - 1) fs cwd (PurePath k qs) = (with_dirs fs ?L, None)"
      and wf1: "well_formed (with_dirs fs ?L)" by simp_all
    have dirs1: "\<forall>l \<in> set ?L. with_dirs fs ?L l = Some Dir"
      by (simp add: with_dirs_def)
    have nft1: "\<not> is_file (with_dirs fs ?L ?t)"
      using nft by (simp add: with_dirs_def is_file_def)
    have h: "mkdir_here (with_dirs fs ?L) cwd ?q = ((with_dirs fs ?L)(?t \<mapsto> Dir), None)"
      using mkdir_last(1) [OF wf1 ok ps snoc.prems(2), of cwd] dirs1 nft1 by (simp add: st)
    have "mkdir_parents depth fs cwd ?q = ((with_dirs fs ?L)(?t \<mapsto> Dir), None)"
      using dp p h
      by (simp add: mkdir_parents.simps [of depth fs cwd ?q] m is_not_found_def par)
    moreover have "(with_dirs fs ?L)(?t \<mapsto> Dir) = with_dirs fs (lexical ?s (qs @ [c]))"
      unfolding lexical_snoc by (rule with_dirs_step)
    moreover have "well_formed ((with_dirs fs ?L)(?t \<mapsto> Dir))"
      using dirs1 by (intro well_formed_step [OF wf1]) simp
    ultimately show ?thesis by simp
  qed
qed

lemma store_creates:
  assumes wf: "well_formed fs" and cwd: "fs cwd = Some Dir"
    and ok: "os_path_ok (str_path p)" and lim: "within_limits (str_path p)"
    and ne: "parts (str_path p) \<noteq> []"
    and nd: "last (parts (str_path p)) \<noteq> asc ''..''"
    and nf: "\<forall>l \<in> set (ancestors cwd (str_path p)). \<not> is_file (fs l)"
    and ta: "target cwd (str_path p) \<notin> set (ancestors cwd (str_path p))"
    and td: "fs (target cwd (str_path p)) \<noteq> Some Dir"
    and dp: "length (parts (str_path p)) \<le> mkdir_depth rt"
    and nm: "encoding_name name = None"
    and cd: "lookup_codec rt name = Some cd"
    and fe: "file_encode cd s = Some bs" and en: "encode cd s = Some bs'"
  shows "store rt fs cwd (JStr p) (JStr s) (JStr name) =
           (Inr (length bs'),
            (with_dirs fs (ancestors cwd (str_path p)))(target cwd (str_path p) \<mapsto> File bs))"
proof -
  let ?P = "str_path p"
  let ?k = "slashes ?P"
  let ?A = "ancestors cwd ?P"
  let ?fs1 = "with_dirs fs ?A"
  have s: "(if 0 < ?k then [] else cwd) = start cwd ?P" by (simp add: start_def)
  have sd: "fs (if 0 < ?k then [] else cwd) = Some Dir"
    using wf cwd by (simp add: well_formed_def)
  have a: "os_arg ?P = None" using ok lim by (simp add: os_arg_None within_limits_def)
  have sh: "list_all short (parts ?P)" using lim by (simp add: within_limits_def)
  have par: "parent ?P = PurePath ?k (butlast (parts ?P))" by (simp add: parent_def)
  have enc: "list_all fs_encodable (butlast (parts ?P))"
    using ok by (auto simp: os_path_ok_def list_all_iff dest: in_set_butlastD)
  have shb: "list_all short (butlast (parts ?P))"
    using sh by (auto simp: list_all_iff dest: in_set_butlastD)
  have len: "fs_length (path_str (PurePath ?k (butlast (parts ?P)))) < PATH_MAX"
    using os_arg_parent [OF a] by (simp add: os_arg_None par)
  have nf': "\<forall>l \<in> set (lexical (if 0 < ?k then [] else cwd) (butlast (parts ?P))).
               \<not> is_file (fs l)"
    using nf by (simp add: ancestors_def s)
  have dq: "length (butlast (parts ?P)) < mkdir_depth rt"
    using dp ne by (cases "parts ?P") auto
  from mkdir_parents_creates [OF wf sd enc shb len nf' dq]
  have m: "mkdir_parents (mkdir_depth rt) fs cwd (parent ?P) = (?fs1, None)"
    by (simp add: par ancestors_def s)
  have w: "walk ?fs1 (start cwd ?P) (butlast (parts ?P)) = Inr (last ?A)"
    unfolding walk_lexical [OF shb]
    by (auto simp: ancestors_def with_dirs_def dest: in_set_butlastD)
  have d: "?fs1 (last ?A) = Some Dir"
    by (simp add: with_dirs_def ancestors_def)
  have shl: "short (last (parts ?P))" using sh ne by (simp add: list_all_iff)
  have r: "resolve_entry ?fs1 cwd ?P EISDIR = Inr (target cwd ?P)"
    unfolding resolve_entry_Inr using a ne nd w d shl by (simp add: target_def)
  have t: "?fs1 (target cwd ?P) \<noteq> Some Dir"
    using ta td by (simp add: with_dirs_def)
  show ?thesis
    unfolding store_Inr using m r t nm cd fe en by blast
qed

subsection \<open>Text and UTF-8\<close>

lemma translate_newlines_id: "13 \<notin> set s \<Longrightarrow> translate_newlines False s = s"
  by (induction s) auto

lemma mod64: "(c div 64) * 64 + c mod 64 = (c::nat)"
  by simp

lemma div64: "(c div 4096) * 64 + (c div 64) mod 64 = (c::nat) div 64"
proof -
  have "c div 4096 = (c div 64) div 64" by (simp add: div_mult2_eq[symmetric])
  then show ?thesis by simp
qed

lemma div4096: "(c div 262144) * 64 + (c div 4096) mod 64 = (c::nat) div 4096"
proof -
  have "c div 262144 = (c div 4096) div 64" by (simp add: div_mult2_eq[symmetric])
  then show ?thesis by simp
qed

lemma mod64_le: "(c::nat) mod 64 \<le> 63"
proof -
  have "c mod 64 < 64" by simp
  then show ?thesis by linarith
qed

lemma utf8_two:
  assumes "0x80 \<le> c" "c < 0x800"
  shows "utf8_decode_from None ([0xC0 + c div 64, 0x80 + c mod 64] @ rest)
           = map_option ((#) c) (utf8_decode_from None rest)"
proof -
  have "c div 64 < 32" using assms(2) by (simp add: div_less_iff_less_mult)
  moreover have "2 \<le> c div 64" using assms(1) by (simp add: less_eq_div_iff_mult_less_eq)
  ultimately show ?thesis using assms by (simp add: Let_def mod64 mod64_le)
qed

lemma utf8_three:
  assumes "0x800 \<le> c" "c < 0x10000" "\<not> (0xD800 \<le> c \<and> c \<le> 0xDFFF)"
  shows "utf8_decode_from None
           ([0xE0 + c div 4096, 0x80 + (c div 64) mod 64, 0x80 + c mod 64] @ rest)
           = map_option ((#) c) (utf8_decode_from None rest)"
proof -
  have "c div 4096 < 16" using assms(2) by (simp add: div_less_iff_less_mult)
  then show ?thesis using assms by (simp add: Let_def mod64 div64 mod64_le)
qed

lemma recompose: "4096 * (c div 4096) + c div 64 mod 64 * 64 + c mod 64 = (c::nat)"
proof -
  have "c mod 4096 = c mod (64 * 64)" by simp
  also have "\<dots> = 64 * (c div 64 mod 64) + c mod 64" by (rule mod_mult2_eq)
  finally have "c div 64 mod 64 * 64 + c mod 64 = c mod 4096" by simp
  moreover have "4096 * (c div 4096) + c mod 4096 = c" by simp
  ultimately show ?thesis by linarith
qed

lemma utf8_four:
  assumes "0x10000 \<le> c" "c < 0x110000"
  shows "utf8_decode_from None
           ([0xF0 + c div 262144, 0x80 + (c div 4096) mod 64, 0x80 + (c div 64) mod 64,
             0x80 + c mod 64] @ rest)
           = map_option ((#) c) (utf8_decode_from None rest)"
proof -
  have "c div 262144 < 5" using assms(2) by (simp add: div_less_iff_less_mult)
  then show ?thesis using assms by (simp add: Let_def mod64 div64 div4096 mod64_le recompose)
qed

lemma utf8_char_decode:
  assumes "utf8_char c = Some bs"
  shows "utf8_decode_from None (bs @ rest) = map_option ((#) c) (utf8_decode_from None rest)"
proof -
  consider "c < 0x80" | "0x80 \<le> c" "c < 0x800" | "0x800 \<le> c" "c < 0x10000"
    | "0x10000 \<le> c" "c < 0x110000" | "0x110000 \<le> c"
    by linarith
  then show ?thesis
  proof cases
    case 1
    with assms show ?thesis by (auto simp: utf8_char_def)
  next
    case 2
    with assms have "bs = [0xC0 + c div 64, 0x80 + c mod 64]"
      by (simp add: utf8_char_def)
    with utf8_two [OF 2] show ?thesis by simp
  next
    case 3
    with assms have "\<not> (0xD800 \<le> c \<and> c \<le> 0xDFFF)"
      and "bs = [0xE0 + c div 4096, 0x80 + (c div 64) mod 64, 0x80 + c mod 64]"
      by (simp_all add: utf8_char_def split: if_splits)
    with utf8_three [OF 3] show ?thesis by simp
  next
    case 4
    with assms have "bs = [0xF0 + c div 262144, 0x80 + (c div 4096) mod 64,
                         0x80 + (c div 64) mod 64, 0x80 + c mod 64]"
      by (simp add: utf8_char_def)
    with utf8_four [OF 4] show ?thesis by simp
  next
    case 5
    with assms show ?thesis by (simp add: utf8_char_def)
  qed
qed

lemma utf8_round_trip: "utf8_encode s = Some bs \<Longrightarrow> utf8_decode bs = Some s"
  unfolding utf8_decode_def
proof (induction s arbitrary: bs)
  case Nil
  then show ?case by simp
next
  case (Cons c cs)
  then obtain b rest where "utf8_char c = Some b" "utf8_encode cs = Some rest" "bs = b @ rest"
    by (auto split: option.splits)
  with Cons.IH [of rest] utf8_char_decode [of c b rest] show ?case by simp
qed


subsection \<open>Reading\<close>

lemma str_path_empty: "parts (str_path []) = []"
  by (simp add: str_path_def)

lemma read_file_text:
  assumes "os_stat fs cwd (str_path p) = Inr (File bs)"
    and "encoding_name name = None"
    and "lookup_codec rt name = Some cd" and "file_decode cd bs = Some s"
  shows "read_file rt fs cwd (JStr p) (JStr name) =
           JObj [(asc ''success'', JBool True),
                 (asc ''data'', JObj [(asc ''content'', JStr (translate_newlines False s)),
                                      (asc ''path'', JStr p),
                                      (asc ''size'', JInt (int (length bs)))]),
                 (asc ''message'', JStr (translate_newlines False s))]"
  using assms
  by (simp add: read_file_def Path_def path_exists_def lookup_answer_def read_text_def
      text_encoding_def st_size_def)

subsection \<open>The shape of the success envelopes\<close>

text \<open>
  Claim C10. A successful \<^verbatim>\<open>delete_file\<close> returns an envelope with the keys
  \<^verbatim>\<open>success\<close> and \<^verbatim>\<open>message\<close> only, so without \<^verbatim>\<open>data\<close>; a successful
  \<^verbatim>\<open>read_file\<close>, \<^verbatim>\<open>write_file\<close>, \<^verbatim>\<open>create_file\<close> or \<^verbatim>\<open>exists_file\<close> returns an
  envelope whose \<^verbatim>\<open>data\<close> is a mapping.
\<close>

theorem delete_envelope_without_data:
  "(succeeded (fst (delete_file rt fs cwd file_path)) \<longrightarrow>
      keys (fst (delete_file rt fs cwd file_path)) = [asc ''success'', asc ''message'']
      \<and> field (fst (delete_file rt fs cwd file_path)) (asc ''data'') = None)
   \<and> (succeeded (read_file rt fs cwd file_path encoding) \<longrightarrow>
        has_data_mapping (read_file rt fs cwd file_path encoding))
   \<and> (succeeded (fst (write_file rt fs cwd file_path content encoding)) \<longrightarrow>
        has_data_mapping (fst (write_file rt fs cwd file_path content encoding)))
   \<and> (succeeded (fst (create_file rt fs cwd file_path content encoding)) \<longrightarrow>
        has_data_mapping (fst (create_file rt fs cwd file_path content encoding)))
   \<and> (succeeded (exists_file rt fs cwd file_path) \<longrightarrow>
        has_data_mapping (exists_file rt fs cwd file_path))"
proof -
  have d: "succeeded (fst (delete_file rt fs cwd file_path)) \<longrightarrow>
      keys (fst (delete_file rt fs cwd file_path)) = [asc ''success'', asc ''message'']
      \<and> field (fst (delete_file rt fs cwd file_path)) (asc ''data'') = None"
    by (simp add: delete_file_def succeeded_def error_envelope_def split: sum.splits)
  have r: "succeeded (read_file rt fs cwd file_path encoding) \<longrightarrow>
        has_data_mapping (read_file rt fs cwd file_path encoding)"
    by (simp add: read_file_def succeeded_def has_data_mapping_def error_envelope_def
        split: sum.splits)
  have w: "succeeded (fst (write_file rt fs cwd file_path content encoding)) \<longrightarrow>
        has_data_mapping (fst (write_file rt fs cwd file_path content encoding))"
    by (simp add: write_file_store succeeded_def has_data_mapping_def error_envelope_def
        split: sum.splits prod.splits)
  have c: "succeeded (fst (create_file rt fs cwd file_path content encoding)) \<longrightarrow>
        has_data_mapping (fst (create_file rt fs cwd file_path content encoding))"
    by (simp add: create_file_store succeeded_def has_data_mapping_def error_envelope_def
        split: sum.splits prod.splits)
  have e: "succeeded (exists_file rt fs cwd file_path) \<longrightarrow>
        has_data_mapping (exists_file rt fs cwd file_path)"
    by (simp add: exists_file_def succeeded_def has_data_mapping_def error_envelope_def
        split: sum.splits)
  from d r w c e show ?thesis by blast
qed

theorem delete_envelope_without_data_witness:
  "keys (fst (delete_file plain_runtime note_disk home (JStr (asc ''note.txt''))))
     = [asc ''success'', asc ''message'']
   \<and> field (fst (delete_file plain_runtime note_disk home (JStr (asc ''note.txt''))))
       (asc ''data'') = None
   \<and> has_data_mapping (read_file plain_runtime note_disk home (JStr (asc ''note.txt''))
                          (JStr (asc ''utf-8'')))
   \<and> has_data_mapping (fst (write_file plain_runtime note_disk home (JStr (asc ''note.txt''))
                          (JStr (asc ''bye'')) (JStr (asc ''utf-8''))))
   \<and> has_data_mapping (fst (create_file plain_runtime note_disk home (JStr (asc ''note.txt''))
                          (JStr (asc ''bye'')) (JStr (asc ''utf-8''))))
   \<and> has_data_mapping (exists_file plain_runtime note_disk home (JStr (asc ''note.txt'')))"
proof -
  have d: "succeeded (fst (delete_file plain_runtime note_disk home (JStr (asc ''note.txt''))))"
    by (simp add: path_eval skill_eval succeeded_def)
  have r: "succeeded (read_file plain_runtime note_disk home (JStr (asc ''note.txt''))
                          (JStr (asc ''utf-8'')))"
    by (simp add: path_eval skill_eval succeeded_def)
  have w: "succeeded (fst (write_file plain_runtime note_disk home (JStr (asc ''note.txt''))
                     (JStr (asc ''bye'')) (JStr (asc ''utf-8''))))"
    by (simp add: path_eval skill_eval succeeded_def)
  have c: "succeeded (fst (create_file plain_runtime note_disk home (JStr (asc ''note.txt''))
                     (JStr (asc ''bye'')) (JStr (asc ''utf-8''))))"
    by (simp add: path_eval skill_eval succeeded_def)
  have e: "succeeded (exists_file plain_runtime note_disk home (JStr (asc ''note.txt'')))"
    by (simp add: path_eval skill_eval succeeded_def)
  from delete_envelope_without_data [of plain_runtime note_disk home "JStr (asc ''note.txt'')"
      "JStr (asc ''utf-8'')" "JStr (asc ''bye'')"] d r w c e
  show ?thesis by blast
qed

subsection \<open>Writing and creating\<close>




subsection \<open>Deleting\<close>








subsection \<open>Writing, then reading\<close>

text \<open>
  Claim C4, as the code has it. Take a well-formed file system, a path that can be
  printed and is within the limits of the system (names the operating system accepts, of
  at most 255 bytes, fewer than 4096 bytes in all, and no more parts than the recursion
  limit allows nested calls of \<^verbatim>\<open>mkdir\<close>), whose last part is not \<^verbatim>\<open>..\<close>, none of whose
  ancestors is a regular file and which does not name a directory (nor one that its own
  ancestors make), and a content string that can be printed, holds no carriage return,
  and that the encoding writes to a file and reads back from it, as UTF-8 does for every
  string it encodes (lemma \<open>utf8_round_trip\<close>). Then \<^verbatim>\<open>action=write\<close> succeeds, creates
  every missing directory on the way and the file, and changes nothing else; and a
  following \<^verbatim>\<open>action=read\<close> of the same path with the same encoding returns exactly the
  content that was written.
\<close>

theorem write_then_read:
  assumes "file_params env = Some ps"
    and "map_of ps (asc ''action'') = Some (JStr (asc ''write''))"
    and "map_of ps (asc ''path'') = Some (JStr p)"
    and "param_or ps (asc ''content'') (JStr []) = JStr s"
    and "param_or ps (asc ''encoding'') (JStr (asc ''utf-8'')) = JStr name"
    and "file_params env' = Some ps'"
    and "map_of ps' (asc ''action'') = Some (JStr (asc ''read''))"
    and "map_of ps' (asc ''path'') = Some (JStr p)"
    and "param_or ps' (asc ''encoding'') (JStr (asc ''utf-8'')) = JStr name"
    and "disk env' = disk_after (file_main rt env)" and "workdir env' = workdir env"
    and "well_formed (disk env)" and "disk env (workdir env) = Some Dir"
    and "os_path_ok (str_path p)" and "within_limits (str_path p)"
    and "parts (str_path p) \<noteq> []" and "last (parts (str_path p)) \<noteq> asc ''..''"
    and "\<forall>l \<in> set (ancestors (workdir env) (str_path p)). \<not> is_file (disk env l)"
    and "target (workdir env) (str_path p) \<notin> set (ancestors (workdir env) (str_path p))"
    and "disk env (target (workdir env) (str_path p)) \<noteq> Some Dir"
    and "length (parts (str_path p)) \<le> mkdir_depth rt"
    and "encoding_name name = None" and "lookup_codec rt name = Some cd"
    and "file_encode cd s = Some bs" and "encode cd s = Some bs'"
    and "file_decode cd bs = Some s" and "13 \<notin> set s"
    and "printable p" and "printable s"
  shows "file_main rt env =
           \<lparr>stdout = [JObj [(asc ''success'', JBool True),
                            (asc ''data'', JObj [(asc ''path'', JStr p),
                                                 (asc ''size'', JInt (int (length bs')))]),
                            (asc ''message'', JStr (msg_written @ p))]],
            exit_code = 0,
            disk_after = (with_dirs (disk env) (ancestors (workdir env) (str_path p)))
                           (target (workdir env) (str_path p) \<mapsto> File bs)\<rparr>
         \<and> is_dir (disk_after (file_main rt env)) (workdir env) (parent (str_path p)) = Inr True
         \<and> os_stat (disk_after (file_main rt env)) (workdir env) (str_path p) = Inr (File bs)
         \<and> file_main rt env' =
           \<lparr>stdout = [JObj [(asc ''success'', JBool True),
                            (asc ''data'', JObj [(asc ''content'', JStr s),
                                                 (asc ''path'', JStr p),
                                                 (asc ''size'', JInt (int (length bs)))]),
                            (asc ''message'', JStr s)]],
            exit_code = 0, disk_after = disk env'\<rparr>"
proof -
  let ?P = "str_path p"
  let ?W = "workdir env"
  let ?fs1 = "with_dirs (disk env) (ancestors ?W ?P)"
  let ?fs2 = "?fs1(target ?W ?P \<mapsto> File bs)"
  from assms(16) have "p \<noteq> []" using str_path_empty by auto
  then have t: "truthy (JStr p)" by simp
  have st: "store rt (disk env) ?W (JStr p) (JStr s) (JStr name) = (Inr (length bs'), ?fs2)"
    by (rule store_creates [OF assms(12-25)])
  have 1: "file_main rt env =
           \<lparr>stdout = [JObj [(asc ''success'', JBool True),
                            (asc ''data'', JObj [(asc ''path'', JStr p),
                                                 (asc ''size'', JInt (int (length bs')))]),
                            (asc ''message'', JStr (msg_written @ p))]],
            exit_code = 0, disk_after = ?fs2\<rparr>"
    using file_main_action [OF assms(1,2) _ assms(3) t, of rt] assms(28)
    by (simp add: dispatch_write assms(4,5) write_file_store st format_value_def
        output_result_printable)
  from st obtain fs1 l where r: "resolve_entry fs1 ?W ?P EISDIR = Inr l"
    and n: "fs1 l \<noteq> Some Dir" and e: "?fs2 = fs1(l \<mapsto> File bs)"
    unfolding store_Inr using assms(23,24) by auto
  have 2: "is_dir ?fs2 ?W (parent ?P) = Inr True" and 3: "os_stat ?fs2 ?W ?P = Inr (File bs)"
    unfolding e by (rule stored_file [OF r n])+
  from 1 assms(10,11) have d: "disk env' = ?fs2" "workdir env' = ?W" by simp_all
  have 4: "file_main rt env' =
           \<lparr>stdout = [JObj [(asc ''success'', JBool True),
                            (asc ''data'', JObj [(asc ''content'', JStr s),
                                                 (asc ''path'', JStr p),
                                                 (asc ''size'', JInt (int (length bs)))]),
                            (asc ''message'', JStr s)]],
            exit_code = 0, disk_after = disk env'\<rparr>"
    using file_main_action [OF assms(6,7) _ assms(8) t, of rt] assms(28,29)
    by (simp add: dispatch_read assms(9) d read_file_text [OF 3 assms(22,23,26)]
        translate_newlines_id [OF assms(27)] output_result_printable)
  from 1 2 3 4 show ?thesis by simp
qed

theorem write_then_read_witness:
  "path_exists bare_disk home (parent (str_path (asc ''a/./b//c.txt''))) = Inr False
   \<and> file_main plain_runtime
        (invoke [(asc ''action'', JStr (asc ''write'')),
                 (asc ''path'', JStr (asc ''a/./b//c.txt'')),
                 (asc ''content'', JStr [0x4E2D, 10])] bare_disk)
     = \<lparr>stdout = [JObj [(asc ''success'', JBool True),
                        (asc ''data'', JObj [(asc ''path'', JStr (asc ''a/./b//c.txt'')),
                                             (asc ''size'', JInt 4)]),
                        (asc ''message'', JStr (msg_written @ asc ''a/./b//c.txt''))]],
        exit_code = 0,
        disk_after = bare_disk(home @ [asc ''a''] \<mapsto> Dir, home @ [asc ''a'', asc ''b''] \<mapsto> Dir,
                       home @ [asc ''a'', asc ''b'', asc ''c.txt'']
                         \<mapsto> File [0xE4, 0xB8, 0xAD, 10])\<rparr>
   \<and> stdout (file_main plain_runtime
        (invoke [(asc ''action'', JStr (asc ''read'')),
                 (asc ''path'', JStr (asc ''a/./b//c.txt''))]
           (disk_after (file_main plain_runtime
              (invoke [(asc ''action'', JStr (asc ''write'')),
                       (asc ''path'', JStr (asc ''a/./b//c.txt'')),
                       (asc ''content'', JStr [0x4E2D, 10])] bare_disk)))))
     = [JObj [(asc ''success'', JBool True),
              (asc ''data'', JObj [(asc ''content'', JStr [0x4E2D, 10]),
                                   (asc ''path'', JStr (asc ''a/./b//c.txt'')),
                                   (asc ''size'', JInt 4)]),
              (asc ''message'', JStr [0x4E2D, 10])]]"
proof -
  let ?p = "asc ''a/./b//c.txt''"
  let ?w = "[(asc ''action'', JStr (asc ''write'')), (asc ''path'', JStr ?p),
             (asc ''content'', JStr [0x4E2D, 10])]"
  let ?r = "[(asc ''action'', JStr (asc ''read'')), (asc ''path'', JStr ?p)]"
  let ?env = "invoke ?w bare_disk"
  let ?env' = "invoke ?r (disk_after (file_main plain_runtime ?env))"
  let ?disk = "bare_disk(home @ [asc ''a''] \<mapsto> Dir, home @ [asc ''a'', asc ''b''] \<mapsto> Dir,
                 home @ [asc ''a'', asc ''b'', asc ''c.txt''] \<mapsto> File [0xE4, 0xB8, 0xAD, 10])"
  have parts: "str_path ?p = PurePath 0 [asc ''a'', asc ''b'', asc ''c.txt'']"
    by (simp add: str_path_def leading_slashes_def asc_def)
  have anc: "ancestors home (str_path ?p) = [home, home @ [asc ''a''], home @ [asc ''a'', asc ''b'']]"
    by (simp add: parts ancestors_def start_def step_def)
  have tgt: "target home (str_path ?p) = home @ [asc ''a'', asc ''b'', asc ''c.txt'']"
    unfolding target_def anc by (simp add: parts)
  have 1: "map_of ?w (asc ''action'') = Some (JStr (asc ''write''))"
    and 2: "map_of ?w (asc ''path'') = Some (JStr ?p)"
    and 3: "param_or ?w (asc ''content'') (JStr []) = JStr [0x4E2D, 10]"
    and 4: "param_or ?w (asc ''encoding'') (JStr (asc ''utf-8'')) = JStr (asc ''utf-8'')"
    and 6: "map_of ?r (asc ''action'') = Some (JStr (asc ''read''))"
    and 7: "map_of ?r (asc ''path'') = Some (JStr ?p)"
    and 8: "param_or ?r (asc ''encoding'') (JStr (asc ''utf-8'')) = JStr (asc ''utf-8'')"
    by (simp_all add: param_or_def)
  have 9: "disk ?env' = disk_after (file_main plain_runtime ?env)"
    and 10: "workdir ?env' = workdir ?env"
    by (simp_all add: disk_invoke)
  have 11: "well_formed (disk ?env)" unfolding disk_invoke by (rule wf_bare)
  have 12: "disk ?env (workdir ?env) = Some Dir"
    unfolding disk_invoke by (simp add: bare_disk_def)
  have 13: "os_path_ok (str_path ?p)"
    unfolding parts by (simp add: os_path_ok_def fs_encodable_def asc_def utf8_char_def)
  have 14: "within_limits (str_path ?p)"
    unfolding parts
    by (simp add: within_limits_def short_def path_str_def fs_length_def NAME_MAX_def
        PATH_MAX_def asc_def char_bytes_def)
  have 15: "parts (str_path ?p) \<noteq> []" unfolding parts by simp
  have 16: "last (parts (str_path ?p)) \<noteq> asc ''..''" unfolding parts by simp
  have 17: "\<forall>l \<in> set (ancestors (workdir ?env) (str_path ?p)). \<not> is_file (disk ?env l)"
    unfolding disk_invoke anc by (simp add: is_file_def bare_disk_def home_def)
  have 18: "target (workdir ?env) (str_path ?p) \<notin> set (ancestors (workdir ?env) (str_path ?p))"
    unfolding disk_invoke anc tgt by simp
  have 19: "disk ?env (target (workdir ?env) (str_path ?p)) \<noteq> Some Dir"
    unfolding disk_invoke tgt by (simp add: bare_disk_def home_def)
  have 20: "length (parts (str_path ?p)) \<le> mkdir_depth plain_runtime"
    unfolding parts by (simp add: plain_runtime_def)
  have 21: "encoding_name (asc ''utf-8'') = None" by (simp add: encoding_name_def asc_def utf8_char_def)
  have 22: "lookup_codec plain_runtime (asc ''utf-8'') = Some utf8_codec"
    by (simp add: lookup_codec_def)
  have 23: "file_encode utf8_codec [0x4E2D, 10] = Some [0xE4, 0xB8, 0xAD, 10]"
    and 24: "encode utf8_codec [0x4E2D, 10] = Some [0xE4, 0xB8, 0xAD, 10]"
    by (simp_all add: utf8_codec_def utf8_char_def)
  have 25: "file_decode utf8_codec [0xE4, 0xB8, 0xAD, 10] = Some [0x4E2D, 10]"
    using 24 by (simp add: utf8_codec_def utf8_round_trip)
  have 26: "13 \<notin> set [0x4E2D, 10 :: nat]" by simp
  have 27: "printable ?p" by simp
  have 28: "printable [0x4E2D, 10]" by (simp add: utf8_char_def)
  have missing: "path_exists bare_disk home (parent (str_path ?p)) = Inr False"
    by (simp add: path_eval)
  have d: "(with_dirs bare_disk (ancestors home (str_path ?p)))
             (target home (str_path ?p) \<mapsto> File [0xE4, 0xB8, 0xAD, 10]) = ?disk"
    unfolding anc tgt
    by (rule ext) (simp add: with_dirs_def bare_disk_def home_def)
  have n: "int (length [0xE4, 0xB8, 0xAD, 10 :: nat]) = 4" by simp
  note t = write_then_read [OF file_params_invoke 1 2 3 4 file_params_invoke 6 7 8 9 10 11 12 13
      14 15 16 17 18 19 20 21 22 23 24 25 26 27 28]
  have w: "file_main plain_runtime ?env
     = \<lparr>stdout = [JObj [(asc ''success'', JBool True),
                        (asc ''data'', JObj [(asc ''path'', JStr ?p), (asc ''size'', JInt 4)]),
                        (asc ''message'', JStr (msg_written @ ?p))]],
        exit_code = 0, disk_after = ?disk\<rparr>"
    using conjunct1 [OF t] unfolding disk_invoke d n .
  have r: "stdout (file_main plain_runtime ?env')
     = [JObj [(asc ''success'', JBool True),
              (asc ''data'', JObj [(asc ''content'', JStr [0x4E2D, 10]), (asc ''path'', JStr ?p),
                                   (asc ''size'', JInt 4)]),
              (asc ''message'', JStr [0x4E2D, 10])]]"
    using conjunct2 [OF conjunct2 [OF conjunct2 [OF t]]] by simp
  from missing w r show ?thesis by (intro conjI)
qed

text \<open>
  The claim speaks of every content string. Reading translates line ends: a carriage
  return written to a new file under a directory that did not exist is read back as a
  line feed.
\<close>

theorem write_then_read_carriage_return_counterexample:
  "path_exists bare_disk home (parent (str_path (asc ''a/b.txt''))) = Inr False
   \<and> stdout (file_main plain_runtime
        (invoke [(asc ''action'', JStr (asc ''write'')), (asc ''path'', JStr (asc ''a/b.txt'')),
                 (asc ''content'', JStr [97, 13, 98])] bare_disk))
     = [JObj [(asc ''success'', JBool True),
              (asc ''data'', JObj [(asc ''path'', JStr (asc ''a/b.txt'')),
                                   (asc ''size'', JInt 3)]),
              (asc ''message'', JStr (msg_written @ asc ''a/b.txt''))]]
   \<and> stdout (file_main plain_runtime
        (invoke [(asc ''action'', JStr (asc ''read'')), (asc ''path'', JStr (asc ''a/b.txt''))]
           (disk_after (file_main plain_runtime
              (invoke [(asc ''action'', JStr (asc ''write'')),
                       (asc ''path'', JStr (asc ''a/b.txt'')),
                       (asc ''content'', JStr [97, 13, 98])] bare_disk)))))
     = [JObj [(asc ''success'', JBool True),
              (asc ''data'', JObj [(asc ''content'', JStr [97, 10, 98]),
                                   (asc ''path'', JStr (asc ''a/b.txt'')),
                                   (asc ''size'', JInt 3)]),
              (asc ''message'', JStr [97, 10, 98])]]"
  by (simp add: path_eval skill_eval msg_written_def)

text \<open>
  Two more inputs on which the write itself fails, though the parent directory does not
  exist: a regular file among the ancestors, and a content string that UTF-8 cannot
  encode (a lone surrogate), which leaves the new file empty.
\<close>

lemma write_below_file_fails:
  "path_exists note_disk home (parent (str_path (asc ''note.txt/x/y.txt''))) = Inr False
   \<and> file_main plain_runtime
        (invoke [(asc ''action'', JStr (asc ''write'')),
                 (asc ''path'', JStr (asc ''note.txt/x/y.txt'')),
                 (asc ''content'', JStr (asc ''hi''))] note_disk)
     = \<lparr>stdout = [JObj [(asc ''success'', JBool False),
                        (asc ''error'', JStr (msg_write_failed @ asc ''error''))]],
        exit_code = 0, disk_after = note_disk\<rparr>"
  by (simp add: path_eval skill_eval msg_write_failed_def)

lemma write_surrogate_fails:
  "file_main plain_runtime
        (invoke [(asc ''action'', JStr (asc ''write'')), (asc ''path'', JStr (asc ''a/b.txt'')),
                 (asc ''content'', JStr [0xD800])] bare_disk)
     = \<lparr>stdout = [JObj [(asc ''success'', JBool False),
                        (asc ''error'', JStr (msg_write_failed @ asc ''error''))]],
        exit_code = 0,
        disk_after = bare_disk(home @ [asc ''a''] \<mapsto> Dir,
                               home @ [asc ''a'', asc ''b.txt''] \<mapsto> File [])\<rparr>"
  by (simp add: path_eval skill_eval msg_write_failed_def)

end
